theory Spec2Isabelle
  imports Complex_Main "HOL-Library.AList"
begin

section \<open>The genetic-algorithm scheduler of \<open>Program 2/main.py\<close>\<close>

text \<open>
  The development embeds the scheduler shallowly. Python's \<open>int\<close> is \<open>int\<close>, \<open>str\<close> is
  \<open>string\<close>, a \<open>dict\<close> (also \<open>Counter\<close> and \<open>defaultdict\<close>) is an association list in
  insertion order with distinct keys, and an exception is a value of type \<open>error\<close> on the
  left of a sum. Python's \<open>float\<close> is abstracted to \<open>real\<close>: every constant, comparison and
  branch of the source is kept. In the fitness rounding is not modelled; in the main
  loop the operations on floats are parameters, so that what is proved of the loop holds
  for whatever they round to.
\<close>

subsection \<open>Errors\<close>

datatype error =
    KeyError string
  | IndexError
  | ValueError
  | ZeroDivisionError

subsection \<open>Data model\<close>

record Room =
  building :: string
  number :: int
  capacity :: int

record Activity =
  subject :: string
  course_number :: int
  section' :: "string option"
  expected_enrollment :: int
  preferred_facilitators :: "string set"
  other_facilitators :: "string set"

record Schedule =
  activities :: "Activity list"
  facilitators :: "string list"
  rooms :: "Room list"
  times :: "int list"

record ActivityAssignment =
  activity :: Activity
  facilitator :: string
  room :: Room
  time :: int

text \<open>
  The field \<open>activities\<close> of the Python class \<open>ScheduleAssignment\<close> is the dictionary of
  genes; it is named \<open>genes\<close> here because \<open>activities\<close> is the field of \<open>Schedule\<close>.
\<close>

record ScheduleAssignment =
  schedule :: Schedule
  genes :: "(string \<times> ActivityAssignment) list"

subsection \<open>Dictionaries\<close>

text \<open>\<open>d[k]\<close> raises \<open>KeyError\<close> on a missing key.\<close>

definition dict_get :: "(string \<times> 'v) list \<Rightarrow> string \<Rightarrow> error + 'v" where
  "dict_get d k = (case map_of d k of None \<Rightarrow> Inl (KeyError k) | Some v \<Rightarrow> Inr v)"

text \<open>\<open>d[k] = v\<close> replaces the value of a key in place and appends a new key.\<close>

abbreviation dict_set :: "'k \<Rightarrow> 'v \<Rightarrow> ('k \<times> 'v) list \<Rightarrow> ('k \<times> 'v) list" where
  "dict_set \<equiv> AList.update"

subsection \<open>Activity identifiers\<close>

text \<open>\<open>f"{subject}{course_number:03}{section or ''}"\<close>: the number is written in decimal,
  padded with zeros to three characters, the sign counting as one of them.\<close>

definition digit :: "nat \<Rightarrow> char" where
  "digit d = ''0123456789'' ! d"

function str_nat :: "nat \<Rightarrow> string" where
  "str_nat n = (if n < 10 then [digit n] else str_nat (n div 10) @ [digit (n mod 10)])"
  by pat_completeness auto
termination
  by (relation "measure id") auto

declare str_nat.simps [simp del]

definition zfill :: "nat \<Rightarrow> string \<Rightarrow> string" where
  "zfill w s = replicate (w - length s) CHR ''0'' @ s"

definition format_03 :: "int \<Rightarrow> string" where
  "format_03 i =
     (if i < 0 then CHR ''-'' # zfill 2 (str_nat (nat (- i))) else zfill 3 (str_nat (nat i)))"

definition get_id :: "Activity \<Rightarrow> string" where
  "get_id a =
     subject a @ format_03 (course_number a) @ (case section' a of None \<Rightarrow> [] | Some s \<Rightarrow> s)"

subsection \<open>The random source\<close>

text \<open>
  The hidden state of Python's \<open>random\<close> module is an explicit stream of draws, threaded
  through every call; each library call consumes one draw. \<open>random.random()\<close> is a
  multiple of \<open>2^-53\<close> in \<open>[0, 1)\<close>, \<open>random.randint(a, b)\<close> is an integer of \<open>[a, b]\<close> and
  raises \<open>ValueError\<close> on an empty range, \<open>random.choice(seq)\<close> is an element of \<open>seq\<close> and
  raises \<open>IndexError\<close> on an empty sequence. Probabilities are not modelled: a statement
  that holds for every stream holds for every outcome of the draws.
\<close>

type_synonym rng = "nat \<Rightarrow> nat"

definition rng_next :: "rng \<Rightarrow> nat \<times> rng" where
  "rng_next g = (g 0, \<lambda>n. g (Suc n))"

definition random_random :: "rng \<Rightarrow> real \<times> rng" where
  "random_random g = (case rng_next g of (d, g') \<Rightarrow> (real (d mod 2 ^ 53) / 2 ^ 53, g'))"

definition random_randint :: "int \<Rightarrow> int \<Rightarrow> rng \<Rightarrow> error + (int \<times> rng)" where
  "random_randint a b g =
     (if b < a then Inl ValueError
      else case rng_next g of (d, g') \<Rightarrow> Inr (a + int (d mod nat (b - a + 1)), g'))"

definition random_choice :: "'a list \<Rightarrow> rng \<Rightarrow> error + ('a \<times> rng)" where
  "random_choice seq g =
     (if seq = [] then Inl IndexError
      else case rng_next g of (d, g') \<Rightarrow> Inr (seq ! (d mod length seq), g'))"

subsection \<open>Random assignments\<close>

definition ActivityAssignment_make_random_assignment ::
  "Schedule \<Rightarrow> Activity \<Rightarrow> rng \<Rightarrow> error + (ActivityAssignment \<times> rng)" where
  "ActivityAssignment_make_random_assignment s a g =
     (case random_choice (facilitators s) g of Inl e \<Rightarrow> Inl e | Inr (f, g1) \<Rightarrow>
      case random_choice (rooms s) g1 of Inl e \<Rightarrow> Inl e | Inr (r, g2) \<Rightarrow>
      case random_choice (times s) g2 of Inl e \<Rightarrow> Inl e | Inr (t, g3) \<Rightarrow>
        Inr (\<lparr>activity = a, facilitator = f, room = r, time = t\<rparr>, g3))"

text \<open>The dictionary comprehension: one entry per activity, in the schedule's order.\<close>

fun random_genes ::
  "Schedule \<Rightarrow> Activity list \<Rightarrow> (string \<times> ActivityAssignment) list \<Rightarrow> rng
     \<Rightarrow> error + ((string \<times> ActivityAssignment) list \<times> rng)" where
  "random_genes s [] d g = Inr (d, g)"
| "random_genes s (a # as) d g =
     (case ActivityAssignment_make_random_assignment s a g of
        Inl e \<Rightarrow> Inl e
      | Inr (x, g') \<Rightarrow> random_genes s as (dict_set (get_id a) x d) g')"

definition ScheduleAssignment_make_random_assignment ::
  "Schedule \<Rightarrow> rng \<Rightarrow> error + (ScheduleAssignment \<times> rng)" where
  "ScheduleAssignment_make_random_assignment s g =
     (case random_genes s (activities s) [] g of
        Inl e \<Rightarrow> Inl e
      | Inr (d, g') \<Rightarrow> Inr (\<lparr>schedule = s, genes = d\<rparr>, g'))"

subsection \<open>Crossover and mutation\<close>

text \<open>The conditional expression that chooses gene \<open>i\<close>: the draw of \<open>random.random()\<close>
  comes first, and only the chosen branch is evaluated.\<close>

definition cross_gene ::
  "Schedule \<Rightarrow> ScheduleAssignment \<Rightarrow> ScheduleAssignment \<Rightarrow> real \<Rightarrow> int \<Rightarrow> nat \<Rightarrow> Activity
     \<Rightarrow> rng \<Rightarrow> error + (ActivityAssignment \<times> rng)" where
  "cross_gene s a b mutation_rate chiasma i act g =
     (case random_random g of (u, g1) \<Rightarrow>
        if u < mutation_rate then ActivityAssignment_make_random_assignment s act g1
        else if int i < chiasma then
          (case dict_get (genes a) (get_id act) of Inl e \<Rightarrow> Inl e | Inr x \<Rightarrow> Inr (x, g1))
        else
          (case dict_get (genes b) (get_id act) of Inl e \<Rightarrow> Inl e | Inr x \<Rightarrow> Inr (x, g1)))"

fun cross_loop ::
  "Schedule \<Rightarrow> ScheduleAssignment \<Rightarrow> ScheduleAssignment \<Rightarrow> real \<Rightarrow> int \<Rightarrow> nat \<Rightarrow> Activity list
     \<Rightarrow> (string \<times> ActivityAssignment) list \<Rightarrow> rng
     \<Rightarrow> error + ((string \<times> ActivityAssignment) list \<times> rng)" where
  "cross_loop s a b mutation_rate chiasma i [] new_activities g = Inr (new_activities, g)"
| "cross_loop s a b mutation_rate chiasma i (act # acts) new_activities g =
     (case cross_gene s a b mutation_rate chiasma i act g of
        Inl e \<Rightarrow> Inl e
      | Inr (x, g') \<Rightarrow>
          cross_loop s a b mutation_rate chiasma (Suc i) acts
            (dict_set (get_id act) x new_activities) g')"

definition cross_schedules ::
  "Schedule \<Rightarrow> ScheduleAssignment \<Rightarrow> ScheduleAssignment \<Rightarrow> real \<Rightarrow> rng
     \<Rightarrow> error + (ScheduleAssignment \<times> rng)" where
  "cross_schedules s a b mutation_rate g =
     (case random_randint 0 (int (length (activities s)) - 1) g of
        Inl e \<Rightarrow> Inl e
      | Inr (chiasma, g1) \<Rightarrow>
          (case cross_loop s a b mutation_rate chiasma 0 (activities s) [] g1 of
             Inl e \<Rightarrow> Inl e
           | Inr (new_activities, g') \<Rightarrow>
               Inr (\<lparr>schedule = schedule a, genes = new_activities\<rparr>, g')))"

subsection \<open>Fitness\<close>

definition bind :: "error + 'a \<Rightarrow> ('a \<Rightarrow> error + 'b) \<Rightarrow> error + 'b" where
  "bind m f = (case m of Inl e \<Rightarrow> Inl e | Inr x \<Rightarrow> f x)"

definition building_clusters :: "(string \<times> int) list" where
  "building_clusters =
     [(''Roman'', 2), (''Beach'', 2), (''Slater'', 1), (''Loft'', 1), (''Logos'', 1),
      (''Frank'', 1)]"

text \<open>\<open>c[k] += 1\<close> on a \<open>Counter\<close> or a \<open>defaultdict(lambda: 0)\<close>, and \<open>d[k].add(v)\<close> on a
  \<open>defaultdict(set)\<close>; a set is a list without repetitions.\<close>

definition counter_incr :: "'k \<Rightarrow> ('k \<times> nat) list \<Rightarrow> ('k \<times> nat) list" where
  "counter_incr k c = dict_set k (case map_of c k of None \<Rightarrow> 1 | Some n \<Rightarrow> n + 1) c"

definition set_add :: "'k \<Rightarrow> 'v \<Rightarrow> ('k \<times> 'v list) list \<Rightarrow> ('k \<times> 'v list) list" where
  "set_add k v d = dict_set k (List.insert v (case map_of d k of None \<Rightarrow> [] | Some vs \<Rightarrow> vs)) d"

record fitness_state =
  fitness :: real
  room_time_load :: "((Room \<times> int) \<times> nat) list"
  facilitator_time_load :: "((string \<times> int) \<times> nat) list"
  facilitator_time_building_schedule :: "((string \<times> int) \<times> int list) list"
  facilitator_load :: "(string \<times> nat) list"

definition init_state :: fitness_state where
  "init_state =
     \<lparr>fitness = 0, room_time_load = [], facilitator_time_load = [],
      facilitator_time_building_schedule = [], facilitator_load = []\<rparr>"

text \<open>The capacity rule with the branches in the order of the source.\<close>

definition capacity_rule :: "real \<Rightarrow> real \<Rightarrow> real" where
  "capacity_rule capacity_ratio f =
     (if capacity_ratio < 1 then f - 0.5
      else if capacity_ratio > 3 then f - 0.2
      else if capacity_ratio > 6 then f - 0.4
      else f + 0.3)"

definition preference_rule :: "ActivityAssignment \<Rightarrow> real \<Rightarrow> real" where
  "preference_rule x f =
     (if facilitator x \<in> preferred_facilitators (activity x) then f + 0.5
      else if facilitator x \<in> other_facilitators (activity x) then f + 0.2
      else f - 0.1)"

text \<open>One iteration of the loop over the genes: the three counters, the cluster of the
  room's building (\<open>KeyError\<close> when unmapped), the capacity ratio (\<open>ZeroDivisionError\<close>
  when nobody is expected) and the two per-activity rules.\<close>

definition capacity_fit :: "ActivityAssignment \<Rightarrow> real \<Rightarrow> error + real" where
  "capacity_fit x f =
     (if expected_enrollment (activity x) = 0 then Inl ZeroDivisionError
      else Inr (capacity_rule
             (real_of_int (capacity (room x)) / real_of_int (expected_enrollment (activity x))) f))"

definition activity_step :: "ActivityAssignment \<Rightarrow> fitness_state \<Rightarrow> error + fitness_state" where
  "activity_step x st =
     (let st1 = st\<lparr>room_time_load := counter_incr (room x, time x) (room_time_load st),
                   facilitator_load := counter_incr (facilitator x) (facilitator_load st),
                   facilitator_time_load :=
                     counter_incr (facilitator x, time x) (facilitator_time_load st)\<rparr>
      in bind (dict_get building_clusters (building (room x))) (\<lambda>cluster.
         let st2 = st1\<lparr>facilitator_time_building_schedule :=
                        set_add (facilitator x, time x) cluster
                          (facilitator_time_building_schedule st1)\<rparr>
         in bind (capacity_fit x (fitness st2)) (\<lambda>f.
            Inr (st2\<lparr>fitness := preference_rule x f\<rparr>))))"

fun activity_loop :: "ActivityAssignment list \<Rightarrow> fitness_state \<Rightarrow> error + fitness_state" where
  "activity_loop [] st = Inr st"
| "activity_loop (x # xs) st = bind (activity_step x st) (activity_loop xs)"

text \<open>Room and time conflicts.\<close>

definition room_time_step :: "nat \<Rightarrow> real \<Rightarrow> real" where
  "room_time_step load f = (if load \<ge> 2 then f - 0.5 * real load else f)"

definition room_time_rule :: "((Room \<times> int) \<times> nat) list \<Rightarrow> real \<Rightarrow> real" where
  "room_time_rule rtl f = fold room_time_step (map snd rtl) f"

text \<open>Facilitator load.\<close>

definition facilitator_load_step :: "string \<times> nat \<Rightarrow> real \<Rightarrow> real" where
  "facilitator_load_step item f =
     (case item of (fac, load) \<Rightarrow>
        if fac = ''Tyler'' \<and> load < 2 then f
        else if load = 1 \<or> load = 2 then f - 0.4
        else if load > 4 then f - 0.5
        else f)"

definition facilitator_load_rule :: "(string \<times> nat) list \<Rightarrow> real \<Rightarrow> real" where
  "facilitator_load_rule fl f = fold facilitator_load_step fl f"

text \<open>Facilitators in two places at once.\<close>

definition double_booking_step :: "nat \<Rightarrow> real \<Rightarrow> real" where
  "double_booking_step load f = (if load > 1 then f - 0.2 else f)"

definition double_booking_rule :: "((string \<times> int) \<times> nat) list \<Rightarrow> real \<Rightarrow> real" where
  "double_booking_rule ftl f = fold double_booking_step (map snd ftl) f"

text \<open>Travel between building clusters in consecutive time slots.\<close>

definition travel_step ::
  "((string \<times> int) \<times> int list) list \<Rightarrow> string \<Rightarrow> int \<Rightarrow> int \<Rightarrow> real \<Rightarrow> real" where
  "travel_step ftbs fac t building_group f =
     (let prev = (case map_of ftbs (fac, t - 1) of None \<Rightarrow> [] | Some vs \<Rightarrow> vs)
      in if length prev > 1 \<or> (length prev = 1 \<and> building_group \<notin> set prev) then f - 0.4
         else f + 0.5)"

definition travel_rule :: "((string \<times> int) \<times> int list) list \<Rightarrow> real \<Rightarrow> real" where
  "travel_rule ftbs f =
     fold (\<lambda>item f'. case item of ((fac, t), building_groups) \<Rightarrow>
             fold (travel_step ftbs fac t) building_groups f') ftbs f"

text \<open>The adjustments for the four named activities.\<close>

definition section_gap_rule :: "int \<Rightarrow> real \<Rightarrow> real" where
  "section_gap_rule gap f = (if gap > 4 then f + 0.5 else if gap = 0 then f - 0.5 else f)"

definition sla_pair_step :: "ActivityAssignment \<Rightarrow> ActivityAssignment \<Rightarrow> real \<Rightarrow> error + real" where
  "sla_pair_step sla101 sla191 f =
     (let gap = \<bar>time sla101 - time sla191\<bar>
      in if gap = 1 then
           bind (dict_get building_clusters (building (room sla101))) (\<lambda>c101.
           bind (dict_get building_clusters (building (room sla191))) (\<lambda>c191.
             Inr (if c101 = c191 then f + 0.5 else f - 0.4)))
         else if gap = 2 then Inr (f + 0.25)
         else if gap = 0 then Inr (f - 0.25)
         else Inr f)"

definition sla_inner_loop ::
  "(string \<times> ActivityAssignment) list \<Rightarrow> ActivityAssignment \<Rightarrow> real \<Rightarrow> error + real" where
  "sla_inner_loop d sla101 f =
     bind (dict_get d ''SLA191A'') (\<lambda>a191.
     bind (dict_get d ''SLA191B'') (\<lambda>b191.
     bind (sla_pair_step sla101 a191 f) (\<lambda>f1.
       sla_pair_step sla101 b191 f1)))"

definition named_adjustments :: "(string \<times> ActivityAssignment) list \<Rightarrow> real \<Rightarrow> error + real" where
  "named_adjustments d f =
     bind (dict_get d ''SLA101A'') (\<lambda>a101.
     bind (dict_get d ''SLA101B'') (\<lambda>b101.
     let f1 = section_gap_rule \<bar>time a101 - time b101\<bar> f in
     bind (dict_get d ''SLA191A'') (\<lambda>a191.
     bind (dict_get d ''SLA191B'') (\<lambda>b191.
     let f2 = section_gap_rule \<bar>time a191 - time b191\<bar> f1 in
     bind (dict_get d ''SLA101A'') (\<lambda>x.
     bind (dict_get d ''SLA101B'') (\<lambda>y.
     bind (sla_inner_loop d x f2) (\<lambda>f3.
       sla_inner_loop d y f3)))))))"

definition get_fitness :: "ScheduleAssignment \<Rightarrow> error + real" where
  "get_fitness sa =
     bind (activity_loop (map snd (genes sa)) init_state) (\<lambda>st.
       named_adjustments (genes sa)
         (travel_rule (facilitator_time_building_schedule st)
           (double_booking_rule (facilitator_time_load st)
             (facilitator_load_rule (facilitator_load st)
               (room_time_rule (room_time_load st) (fitness st))))))"

subsection \<open>Selection\<close>

text \<open>
  Modelled from the spec: \<open>scipy.special.softmax\<close> is a library function, not code of
  the repository. The softmax is the exponential normalisation of the fitness vector,
  shifted by its maximum for numerical stability; it has no value on an empty vector.
\<close>

definition softmax :: "real list \<Rightarrow> error + real list" where
  "softmax xs =
     (if xs = [] then Inl ValueError
      else let m = Max (set xs); es = map (\<lambda>x. exp (x - m)) xs
           in Inr (map (\<lambda>e. e / sum_list es) es))"

text \<open>
  Modelled from the spec: \<open>numpy.random.choice\<close> with \<open>replace=False\<close> is a library
  function, not code of the repository. The sampler draws without replacement by
  sequential renormalisation: each draw picks one of the members not drawn yet, with
  probability proportional to its weight (\<open>pick_index\<close> finds the member whose share of
  the total weight the draw falls into), and a sample larger than the population, a
  weight vector of another length or with fewer positive weights than the sample are
  refused with \<open>ValueError\<close>. Without weights every member weighs the same. The sampler
  has its own random source, apart from the one of Python's \<open>random\<close> module.
\<close>

fun pick_index :: "real list \<Rightarrow> real \<Rightarrow> nat" where
  "pick_index [] t = 0"
| "pick_index [w] t = 0"
| "pick_index (w # ws) t = (if t < w then 0 else Suc (pick_index ws (t - w)))"

definition remove_nth :: "nat \<Rightarrow> 'a list \<Rightarrow> 'a list" where
  "remove_nth j xs = take j xs @ drop (Suc j) xs"

fun choice_loop :: "nat \<Rightarrow> nat list \<Rightarrow> real list \<Rightarrow> rng \<Rightarrow> nat list \<times> rng" where
  "choice_loop 0 remaining p g = ([], g)"
| "choice_loop (Suc k) remaining p g =
     (case random_random g of (u, g1) \<Rightarrow>
        let ws = map (\<lambda>i. p ! i) remaining;
            j = pick_index ws (u * sum_list ws)
        in case choice_loop k (remove_nth j remaining) p g1 of
             (found, g') \<Rightarrow> (remaining ! j # found, g'))"

definition choice_indices ::
  "nat \<Rightarrow> nat \<Rightarrow> real list option \<Rightarrow> rng \<Rightarrow> error + (nat list \<times> rng)" where
  "choice_indices pop_size size' p g =
     (let ws = (case p of None \<Rightarrow> replicate pop_size 1 | Some p' \<Rightarrow> p')
      in if pop_size = 0 \<and> size' \<noteq> 0 then Inl ValueError
         else if length ws \<noteq> pop_size then Inl ValueError
         else if size' > pop_size then Inl ValueError
         else if length (filter (\<lambda>w. w > 0) ws) < size' then Inl ValueError
         else Inr (choice_loop size' [0..<pop_size] ws g))"

definition choice :: "'a list \<Rightarrow> nat \<Rightarrow> real list option \<Rightarrow> rng \<Rightarrow> error + ('a list \<times> rng)" where
  "choice a size' p g =
     bind (choice_indices (length a) size' p g) (\<lambda>(found, g').
       Inr (map (\<lambda>i. a ! i) found, g'))"

subsection \<open>The next generation\<close>

text \<open>The first two lines of \<open>get_next_generation\<close>: the indices of the members drawn into
  the parent pool.\<close>

definition select_parents ::
  "real list \<Rightarrow> nat \<Rightarrow> nat \<Rightarrow> rng \<Rightarrow> error + (nat list \<times> rng)" where
  "select_parents population_fitness pop_size parent_pool_size np =
     bind (softmax population_fitness) (\<lambda>softmax_pop_fitness.
       choice_indices pop_size parent_pool_size (Some softmax_pop_fitness) np)"

text \<open>The loop \<open>for _ in population\<close>: one pair of distinct parents and one offspring per
  member of the old population.\<close>

fun offspring_loop ::
  "nat \<Rightarrow> Schedule \<Rightarrow> ScheduleAssignment list \<Rightarrow> real \<Rightarrow> rng \<Rightarrow> rng
     \<Rightarrow> error + (ScheduleAssignment list \<times> rng \<times> rng)" where
  "offspring_loop 0 s parent_population mutation_rate py np = Inr ([], py, np)"
| "offspring_loop (Suc n) s parent_population mutation_rate py np =
     bind (choice parent_population 2 None np) (\<lambda>(ab, np1).
     bind (cross_schedules s (ab ! 0) (ab ! 1) mutation_rate py) (\<lambda>(child, py1).
     bind (offspring_loop n s parent_population mutation_rate py1 np1) (\<lambda>(rest, py2, np2).
       Inr (child # rest, py2, np2))))"

definition get_next_generation ::
  "Schedule \<Rightarrow> ScheduleAssignment list \<Rightarrow> real list \<Rightarrow> nat \<Rightarrow> real \<Rightarrow> rng \<Rightarrow> rng
     \<Rightarrow> error + (ScheduleAssignment list \<times> rng \<times> rng)" where
  "get_next_generation s population population_fitness parent_pool_size mutation_rate py np =
     bind (select_parents population_fitness (length population) parent_pool_size np)
       (\<lambda>(found, np1).
          offspring_loop (length population) s (map (\<lambda>i. population ! i) found)
            mutation_rate py np1)"

subsection \<open>The evolution loop\<close>

fun fitness_all :: "ScheduleAssignment list \<Rightarrow> error + real list" where
  "fitness_all [] = Inr []"
| "fitness_all (sa # sas) =
     bind (get_fitness sa) (\<lambda>f. bind (fitness_all sas) (\<lambda>fs. Inr (f # fs)))"

fun initial_population ::
  "nat \<Rightarrow> Schedule \<Rightarrow> rng \<Rightarrow> error + (ScheduleAssignment list \<times> rng)" where
  "initial_population 0 s py = Inr ([], py)"
| "initial_population (Suc n) s py =
     bind (ScheduleAssignment_make_random_assignment s py) (\<lambda>(sa, py1).
     bind (initial_population n s py1) (\<lambda>(sas, py2). Inr (sa # sas, py2)))"

record loop_state =
  generation :: nat
  population :: "ScheduleAssignment list"
  population_fitness :: "real list"
  mutation_rate :: real
  py_random :: rng
  np_random :: rng

datatype outcome = Break loop_state | Continue loop_state

text \<open>
  The averages, their ratio and the decayed mutation rate are computed in floating point,
  and the test against 1.01 sees the rounded ratio. What \<open>sum\<close> over floats, \<open>/\<close> and \<open>*\<close>
  round to is fixed by the platform's doubles and by the interpreter (\<open>sum\<close> is compensated
  in newer versions), not by the repository, so the three operations are parameters of
  the loop; the exact operations are one instance. The literal 1.01 is the double nearest
  to it, which is the least double above it, so a double is below the one exactly when
  it is below the other.
\<close>

record float_arith =
  float_sum :: "real list \<Rightarrow> real"
  float_div :: "real \<Rightarrow> real \<Rightarrow> real"
  float_mul :: "real \<Rightarrow> real \<Rightarrow> real"

text \<open>\<open>sum(xs) / n\<close> raises \<open>ZeroDivisionError\<close> when \<open>n\<close> is zero.\<close>

definition average :: "float_arith \<Rightarrow> real list \<Rightarrow> nat \<Rightarrow> error + real" where
  "average ops xs n =
     (if n = 0 then Inl ZeroDivisionError
      else Inr (float_div ops (float_sum ops xs) (real n)))"

text \<open>The decision at the end of the body of the loop, for the generation counter \<open>g\<close>.\<close>

definition decide ::
  "float_arith \<Rightarrow> real \<Rightarrow> loop_state \<Rightarrow> real \<Rightarrow> real \<Rightarrow> error + outcome" where
  "decide ops MUTATION_RATE_DECAY st avg_population_fitness avg_prev_population_fitness =
     (if generation st > 100 then
        (if avg_prev_population_fitness = 0 then Inl ZeroDivisionError
         else if float_div ops avg_population_fitness avg_prev_population_fitness < 1.01
              then Inr (Break st)
         else Inr (Continue (st\<lparr>mutation_rate := float_mul ops (mutation_rate st) MUTATION_RATE_DECAY,
                                generation := Suc (generation st)\<rparr>)))
      else Inr (Continue (st\<lparr>generation := Suc (generation st)\<rparr>)))"

definition loop_body ::
  "float_arith \<Rightarrow> Schedule \<Rightarrow> nat \<Rightarrow> real \<Rightarrow> loop_state \<Rightarrow> error + outcome" where
  "loop_body ops s PARENT_POPULATION_SIZE MUTATION_RATE_DECAY st =
     bind (average ops (population_fitness st) (length (population st))) (\<lambda>avg_prev.
     bind (get_next_generation s (population st) (population_fitness st)
             PARENT_POPULATION_SIZE (mutation_rate st) (py_random st) (np_random st))
       (\<lambda>(new_population, py1, np1).
     bind (fitness_all new_population) (\<lambda>new_fitness.
     bind (average ops new_fitness (length new_fitness)) (\<lambda>avg.
       decide ops MUTATION_RATE_DECAY
         (st\<lparr>population := new_population, population_fitness := new_fitness,
             py_random := py1, np_random := np1\<rparr>) avg avg_prev))))"

text \<open>\<open>for g in count()\<close> has no bound: the loop is a partial function, and \<open>None\<close> is a
  run that never leaves it.\<close>

partial_function (option) evolve ::
  "float_arith \<Rightarrow> Schedule \<Rightarrow> nat \<Rightarrow> real \<Rightarrow> loop_state \<Rightarrow> (error + loop_state) option"
  where
  "evolve ops s PARENT_POPULATION_SIZE MUTATION_RATE_DECAY st =
     (case loop_body ops s PARENT_POPULATION_SIZE MUTATION_RATE_DECAY st of
        Inl e \<Rightarrow> Some (Inl e)
      | Inr (Break st') \<Rightarrow> Some (Inr st')
      | Inr (Continue st') \<Rightarrow> evolve ops s PARENT_POPULATION_SIZE MUTATION_RATE_DECAY st')"

text \<open>\<open>max(enumerate(population_fitness), key=lambda p: p[1])\<close>: the first index of the
  greatest fitness.\<close>

fun best_from :: "nat \<times> real \<Rightarrow> (nat \<times> real) list \<Rightarrow> nat \<times> real" where
  "best_from best [] = best"
| "best_from best (p # ps) = best_from (if snd p > snd best then p else best) ps"

definition best_of :: "real list \<Rightarrow> error + (nat \<times> real)" where
  "best_of fs =
     (case List.enumerate 0 fs of [] \<Rightarrow> Inl ValueError | p # ps \<Rightarrow> Inr (best_from p ps))"

text \<open>The two list comprehensions before the loop: the population of generation 0 and
  its fitness.\<close>

definition startup ::
  "nat \<Rightarrow> Schedule \<Rightarrow> rng \<Rightarrow> error + (ScheduleAssignment list \<times> real list \<times> rng)" where
  "startup POPULATION_SIZE s py =
     bind (initial_population POPULATION_SIZE s py) (\<lambda>(population0, py1).
     bind (fitness_all population0) (\<lambda>fitness0. Inr (population0, fitness0, py1)))"

text \<open>The body of \<open>main\<close> after the schedule is loaded, with the constants of the run as
  parameters; the result is the best fitness and the schedule that has it.\<close>

definition run ::
  "float_arith \<Rightarrow> Schedule \<Rightarrow> nat \<Rightarrow> real \<Rightarrow> real \<Rightarrow> rng \<Rightarrow> rng
     \<Rightarrow> (error + (real \<times> ScheduleAssignment)) option" where
  "run ops s POPULATION_SIZE MUTATION_RATE_DECAY mutation_rate0 py np =
     (let PARENT_POPULATION_SIZE = nat \<lfloor>real POPULATION_SIZE * 0.2\<rfloor>
      in case startup POPULATION_SIZE s py of
           Inl e \<Rightarrow> Some (Inl e)
         | Inr (population0, fitness0, py1) \<Rightarrow>
             (case evolve ops s PARENT_POPULATION_SIZE MUTATION_RATE_DECAY
                     \<lparr>generation = 0, population = population0,
                      population_fitness = fitness0, mutation_rate = mutation_rate0,
                      py_random = py1, np_random = np\<rparr> of
                None \<Rightarrow> None
              | Some (Inl e) \<Rightarrow> Some (Inl e)
              | Some (Inr st) \<Rightarrow>
                  Some (bind (best_of (population_fitness st)) (\<lambda>(best_schedule_ix, best_fitness).
                    Inr (best_fitness, population st ! best_schedule_ix)))))"

definition main ::
  "float_arith \<Rightarrow> Schedule \<Rightarrow> rng \<Rightarrow> rng \<Rightarrow> (error + (real \<times> ScheduleAssignment)) option"
  where
  "main ops s py np = run ops s 500 0.5 0.1 py np"

subsection \<open>Reference rules and example inputs\<close>

text \<open>The capacity ratio of a gene, and the capacity rule as three branches, without the
  branch for a ratio above 6.\<close>

definition capacity_ratio :: "ActivityAssignment \<Rightarrow> real" where
  "capacity_ratio x =
     real_of_int (capacity (room x)) / real_of_int (expected_enrollment (activity x))"


definition capacity_three_branch :: "real \<Rightarrow> real \<Rightarrow> real" where
  "capacity_three_branch ratio f =
     (if ratio < 1 then f - 0.5 else if ratio > 3 then f - 0.2 else f + 0.3)"

text \<open>What a group of \<open>k\<close> genes in one room at one time costs.\<close>

definition conflict_penalty :: "nat \<Rightarrow> real" where
  "conflict_penalty k = (if k \<ge> 2 then 0.5 * real k else 0)"

text \<open>What a facilitator with \<open>n\<close> activities costs: too few, too many, and the exemption
  of one name from the penalty for too few when its load is below 2.\<close>

definition load_penalty :: "string \<Rightarrow> nat \<Rightarrow> real" where
  "load_penalty fac n =
     (if n > 4 then 0.5
      else if (n = 1 \<or> n = 2) \<and> \<not> (fac = ''Tyler'' \<and> n < 2) then 0.4
      else 0)"

text \<open>A gene that a random assignment for the activity can produce.\<close>

definition fresh_gene :: "Schedule \<Rightarrow> Activity \<Rightarrow> ActivityAssignment \<Rightarrow> bool" where
  "fresh_gene s act x \<longleftrightarrow>
     activity x = act \<and> facilitator x \<in> set (facilitators s) \<and> room x \<in> set (rooms s) \<and>
     time x \<in> set (times s)"

text \<open>Which genes of a crossover take the mutation branch: the draws of the loop of
  \<open>cross_schedules\<close> replayed, one flag per gene, from the random source as it is
  after the crossover point is drawn.\<close>

fun mutation_trace :: "Schedule \<Rightarrow> real \<Rightarrow> Activity list \<Rightarrow> rng \<Rightarrow> bool list" where
  "mutation_trace s mr [] g = []"
| "mutation_trace s mr (act # acts) g =
     (case random_random g of (u, g1) \<Rightarrow>
        if u < mr then
          (case ActivityAssignment_make_random_assignment s act g1 of
             Inl e \<Rightarrow> [True]
           | Inr (x, g2) \<Rightarrow> True # mutation_trace s mr acts g2)
        else False # mutation_trace s mr acts g1)"

text \<open>A random source that gives the listed draws and zeros after them.\<close>

definition rng_of :: "nat list \<Rightarrow> rng" where
  "rng_of ds n = (case drop n ds of [] \<Rightarrow> 0 | d # _ \<Rightarrow> d)"

definition sla :: "int \<Rightarrow> string \<Rightarrow> Activity" where
  "sla n sec =
     \<lparr>subject = ''SLA'', course_number = n, section' = Some sec, expected_enrollment = 20,
      preferred_facilitators = {''Ann''}, other_facilitators = {}\<rparr>"

definition slater :: Room where
  "slater = \<lparr>building = ''Slater'', number = 101, capacity = 30\<rparr>"

definition mars :: Room where
  "mars = \<lparr>building = ''Mars'', number = 1, capacity = 30\<rparr>"

text \<open>The toy schedule: two activities, one facilitator, one room, two time slots.\<close>

definition toy_schedule :: Schedule where
  "toy_schedule =
     \<lparr>activities = [sla 101 ''A'', sla 101 ''B''], facilitators = [''Ann''], rooms = [slater],
      times = [0, 1]\<rparr>"

text \<open>A schedule with the four named activities and a second room in a building that
  the cluster mapping does not know.\<close>

definition sla_schedule :: Schedule where
  "sla_schedule =
     \<lparr>activities = [sla 101 ''A'', sla 101 ''B'', sla 191 ''A'', sla 191 ''B''],
      facilitators = [''Ann''], rooms = [slater, mars], times = [0, 1]\<rparr>"

definition gene :: "Activity \<Rightarrow> int \<Rightarrow> ActivityAssignment" where
  "gene act t = \<lparr>activity = act, facilitator = ''Ann'', room = slater, time = t\<rparr>"

definition toy_parent :: "int \<Rightarrow> ScheduleAssignment" where
  "toy_parent t =
     \<lparr>schedule = toy_schedule,
      genes = [(''SLA101A'', gene (sla 101 ''A'') t), (''SLA101B'', gene (sla 101 ''B'') t)]\<rparr>"

text \<open>Candidates of the schedule with the four named activities: the four genes at the
  given times, and the four genes with the given facilitators.\<close>

definition timed :: "int \<Rightarrow> int \<Rightarrow> int \<Rightarrow> int \<Rightarrow> ScheduleAssignment" where
  "timed t1 t2 t3 t4 =
     \<lparr>schedule = sla_schedule,
      genes = [(''SLA101A'', gene (sla 101 ''A'') t1), (''SLA101B'', gene (sla 101 ''B'') t2),
               (''SLA191A'', gene (sla 191 ''A'') t3), (''SLA191B'', gene (sla 191 ''B'') t4)]\<rparr>"

definition staffed :: "string \<Rightarrow> string \<Rightarrow> string \<Rightarrow> string \<Rightarrow> ScheduleAssignment" where
  "staffed f1 f2 f3 f4 =
     \<lparr>schedule = sla_schedule,
      genes = [(''SLA101A'', (gene (sla 101 ''A'') 0)\<lparr>facilitator := f1\<rparr>),
               (''SLA101B'', (gene (sla 101 ''B'') 1)\<lparr>facilitator := f2\<rparr>),
               (''SLA191A'', (gene (sla 191 ''A'') 2)\<lparr>facilitator := f3\<rparr>),
               (''SLA191B'', (gene (sla 191 ''B'') 3)\<lparr>facilitator := f4\<rparr>)]\<rparr>"

text \<open>States of the loop with two candidates and random sources that keep the second
  parent's genes in every offspring; the draw \<open>half\<close> is the value 0.5 of
  \<open>random.random()\<close>.\<close>

text \<open>The exact operations, which agree with the doubles wherever their results are
  doubles, as on the averages of the example states below.\<close>

definition exact_arith :: float_arith where
  "exact_arith = \<lparr>float_sum = sum_list, float_div = (/), float_mul = (*)\<rparr>"



section \<open>Properties\<close>

subsection \<open>Evaluation of identifiers\<close>

lemma replicate_numeral: "replicate (numeral k) x = x # replicate (pred_numeral k) x"
  by (simp add: numeral_eq_Suc)

lemmas get_id_eval =
  get_id_def format_03_def zfill_def str_nat.simps digit_def replicate_numeral sla_def

lemma toy_ids: "map get_id (activities toy_schedule) = [''SLA101A'', ''SLA101B'']"
  by (simp add: toy_schedule_def get_id_eval)

lemma sla_ids:
  "map get_id (activities sla_schedule) = [''SLA101A'', ''SLA101B'', ''SLA191A'', ''SLA191B'']"
  by (simp add: sla_schedule_def get_id_eval)

subsection \<open>Evaluation of the random source\<close>

lemma rng_next_Cons: "rng_next (rng_of (d # ds)) = (d, rng_of ds)"
  by (simp add: rng_next_def rng_of_def fun_eq_iff)

lemma rng_next_Nil: "rng_next (rng_of []) = (0, rng_of [])"
  by (simp add: rng_next_def rng_of_def fun_eq_iff)

lemma mod_Suc_Suc_0: "m mod Suc (Suc 0) = m mod 2"
  by (simp add: numeral_2_eq_2)

lemmas rand_eval =
  random_choice_def random_random_def random_randint_def rng_next_Cons rng_next_Nil
  ActivityAssignment_make_random_assignment_def mod_Suc_Suc_0

subsection \<open>The keys of a candidate\<close>

lemma random_genes_keys:
  "random_genes s as d g = Inr (d', g') \<Longrightarrow> fst ` set d' = fst ` set d \<union> get_id ` set as"
proof (induction as arbitrary: d g)
  case Nil
  then show ?case by simp
next
  case (Cons a as)
  from Cons.prems obtain x g1 where
    rec: "random_genes s as (dict_set (get_id a) x d) g1 = Inr (d', g')"
    by (auto split: sum.splits)
  from Cons.IH [OF rec] show ?case
    by (simp add: AList.dom_update Un_assoc)
qed

lemma random_genes_distinct:
  "random_genes s as d g = Inr (d', g') \<Longrightarrow> distinct (map fst d) \<Longrightarrow> distinct (map fst d')"
  by (induction as arbitrary: d g) (auto split: sum.splits simp: AList.distinct_update)

lemma random_genes_order:
  "random_genes s as d g = Inr (d', g') \<Longrightarrow> distinct (map fst d @ map get_id as) \<Longrightarrow>
     map fst d' = map fst d @ map get_id as"
proof (induction as arbitrary: d g)
  case Nil
  then show ?case by simp
next
  case (Cons a as)
  from Cons.prems(1) obtain x g1 where
    rec: "random_genes s as (dict_set (get_id a) x d) g1 = Inr (d', g')"
    by (auto split: sum.splits)
  from Cons.prems(2) have new: "get_id a \<notin> set (map fst d)" by auto
  then have keys: "map fst (dict_set (get_id a) x d) = map fst d @ [get_id a]"
    by (simp add: AList.update_keys)
  from Cons.prems(2) have "distinct (map fst (dict_set (get_id a) x d) @ map get_id as)"
    unfolding keys by auto
  from Cons.IH [OF rec this] show ?case
    by (simp add: keys)
qed

lemma cross_loop_keys:
  "cross_loop s a b mr c i as d g = Inr (d', g') \<Longrightarrow>
     fst ` set d' = fst ` set d \<union> get_id ` set as"
proof (induction as arbitrary: d g i)
  case Nil
  then show ?case by simp
next
  case (Cons act as)
  from Cons.prems obtain x g1 where
    rec: "cross_loop s a b mr c (Suc i) as (dict_set (get_id act) x d) g1 = Inr (d', g')"
    by (auto split: sum.splits)
  from Cons.IH [OF rec] show ?case
    by (simp add: AList.dom_update Un_assoc)
qed

lemma cross_loop_distinct:
  "cross_loop s a b mr c i as d g = Inr (d', g') \<Longrightarrow> distinct (map fst d) \<Longrightarrow>
     distinct (map fst d')"
  by (induction as arbitrary: d g i) (auto split: sum.splits simp: AList.distinct_update)

lemma cross_loop_order:
  "cross_loop s a b mr c i as d g = Inr (d', g') \<Longrightarrow> distinct (map fst d @ map get_id as) \<Longrightarrow>
     map fst d' = map fst d @ map get_id as"
proof (induction as arbitrary: d g i)
  case Nil
  then show ?case by simp
next
  case (Cons act as)
  from Cons.prems(1) obtain x g1 where
    rec: "cross_loop s a b mr c (Suc i) as (dict_set (get_id act) x d) g1 = Inr (d', g')"
    by (auto split: sum.splits)
  from Cons.prems(2) have new: "get_id act \<notin> set (map fst d)" by auto
  then have keys: "map fst (dict_set (get_id act) x d) = map fst d @ [get_id act]"
    by (simp add: AList.update_keys)
  from Cons.prems(2) have "distinct (map fst (dict_set (get_id act) x d) @ map get_id as)"
    unfolding keys by auto
  from Cons.IH [OF rec this] show ?case
    by (simp add: keys)
qed

lemma make_random_genes:
  "ScheduleAssignment_make_random_assignment s g = Inr (sa, g') \<Longrightarrow>
     random_genes s (activities s) [] g = Inr (genes sa, g') \<and> schedule sa = s"
  by (auto simp: ScheduleAssignment_make_random_assignment_def split: sum.splits)

lemma cross_schedules_loop:
  "cross_schedules s a b mr g = Inr (child, g') \<Longrightarrow>
     \<exists>c g1. random_randint 0 (int (length (activities s)) - 1) g = Inr (c, g1) \<and>
       cross_loop s a b mr c 0 (activities s) [] g1 = Inr (genes child, g') \<and>
       schedule child = schedule a"
  by (auto simp: cross_schedules_def split: sum.splits)

text \<open>
  C1. Every candidate that \<open>ScheduleAssignment.make_random_assignment\<close> or
  \<open>cross_schedules\<close> returns for a schedule has exactly the schedule's activity
  identifiers as its keys, each key once, whatever the draws (crossover point and
  mutations included); when the identifiers of the schedule are pairwise distinct the
  keys are the identifiers in the schedule's order, one key per activity.
\<close>

theorem candidates_cover_schedule:
  "(ScheduleAssignment_make_random_assignment s g = Inr (sa, g') \<longrightarrow>
      fst ` set (genes sa) = get_id ` set (activities s) \<and> distinct (map fst (genes sa)) \<and>
      (distinct (map get_id (activities s)) \<longrightarrow>
         map fst (genes sa) = map get_id (activities s)))
   \<and> (cross_schedules s a b mr h = Inr (child, h') \<longrightarrow>
      fst ` set (genes child) = get_id ` set (activities s) \<and>
      distinct (map fst (genes child)) \<and>
      (distinct (map get_id (activities s)) \<longrightarrow>
         map fst (genes child) = map get_id (activities s)))"
proof (intro conjI impI)
  assume "ScheduleAssignment_make_random_assignment s g = Inr (sa, g')"
  then have rg: "random_genes s (activities s) [] g = Inr (genes sa, g')"
    by (simp add: make_random_genes)
  show "fst ` set (genes sa) = get_id ` set (activities s)"
    using random_genes_keys [OF rg] by simp
  show "distinct (map fst (genes sa))"
    using random_genes_distinct [OF rg] by simp
  show "map fst (genes sa) = map get_id (activities s)"
    if "distinct (map get_id (activities s))"
    using random_genes_order [OF rg] that by simp
next
  assume "cross_schedules s a b mr h = Inr (child, h')"
  then obtain c h1 where
    rg: "cross_loop s a b mr c 0 (activities s) [] h1 = Inr (genes child, h')"
    using cross_schedules_loop by blast
  show "fst ` set (genes child) = get_id ` set (activities s)"
    using cross_loop_keys [OF rg] by simp
  show "distinct (map fst (genes child))"
    using cross_loop_distinct [OF rg] by simp
  show "map fst (genes child) = map get_id (activities s)"
    if "distinct (map get_id (activities s))"
    using cross_loop_order [OF rg] that by simp
qed

lemma toy_random:
  "ScheduleAssignment_make_random_assignment toy_schedule (rng_of [0, 0, 1, 0, 0, 2]) =
     Inr (\<lparr>schedule = toy_schedule,
           genes = [(''SLA101A'', gene (sla 101 ''A'') 1), (''SLA101B'', gene (sla 101 ''B'') 0)]\<rparr>,
          rng_of [])"
  by (simp add: ScheduleAssignment_make_random_assignment_def toy_schedule_def rand_eval
      get_id_eval gene_def)

text \<open>A crossover of the toy schedule: crossover point 1, the first gene kept from the
  first parent, the second gene mutated.\<close>

lemma toy_cross_mutated:
  "cross_schedules toy_schedule (toy_parent 0) (toy_parent 1) 0.5
       (rng_of [1, 2 ^ 52, 2 ^ 52 - 1, 0, 0, 1]) =
     Inr (\<lparr>schedule = toy_schedule,
           genes = [(''SLA101A'', gene (sla 101 ''A'') 0), (''SLA101B'', gene (sla 101 ''B'') 1)]\<rparr>,
          rng_of [])"
  by (simp add: cross_schedules_def toy_schedule_def rand_eval get_id_eval
      toy_parent_def gene_def cross_gene_def dict_get_def)

theorem candidates_cover_schedule_witness:
  "(\<exists>sa g'. ScheduleAssignment_make_random_assignment toy_schedule (rng_of [0, 0, 1, 0, 0, 2]) =
        Inr (sa, g') \<and>
      fst ` set (genes sa) = get_id ` set (activities toy_schedule) \<and>
      distinct (map get_id (activities toy_schedule)) \<and>
      map fst (genes sa) = map get_id (activities toy_schedule))
   \<and> (\<exists>child g'. cross_schedules toy_schedule (toy_parent 0) (toy_parent 1) 0.5
          (rng_of [1, 2 ^ 52, 2 ^ 52 - 1, 0, 0, 1]) = Inr (child, g') \<and>
      fst ` set (genes child) = get_id ` set (activities toy_schedule) \<and>
      map fst (genes child) = map get_id (activities toy_schedule))"
proof -
  have d: "distinct (map get_id (activities toy_schedule))"
    by (simp add: toy_ids)
  note t = candidates_cover_schedule [of toy_schedule "rng_of [0, 0, 1, 0, 0, 2]" _ _
      "toy_parent 0" "toy_parent 1" "0.5" "rng_of [1, 2 ^ 52, 2 ^ 52 - 1, 0, 0, 1]"]
  from t toy_random toy_cross_mutated d show ?thesis
    by blast
qed

text \<open>The capacity rule of the source and the rule with three branches agree.\<close>

lemma capacity_rule_branches:
  "capacity_fit x f =
     (if expected_enrollment (activity x) = 0 then Inl ZeroDivisionError
      else Inr (capacity_three_branch
             (real_of_int (capacity (room x)) / real_of_int (expected_enrollment (activity x)))
             f))
   \<and> capacity_rule ratio f = capacity_three_branch ratio f
   \<and> capacity_rule ratio f \<noteq> f - 0.4
   \<and> capacity_rule 1 f = f + 0.3 \<and> capacity_rule 3 f = f + 0.3"
  by (simp add: capacity_fit_def capacity_rule_def capacity_three_branch_def)

subsection \<open>Crossover, gene by gene\<close>


lemma random_choice_mem: "random_choice xs g = Inr (x, g') \<Longrightarrow> x \<in> set xs"
  by (auto simp: random_choice_def rng_next_def split: if_splits)

lemma make_random_fresh:
  "ActivityAssignment_make_random_assignment s act g = Inr (x, g') \<Longrightarrow> fresh_gene s act x"
proof -
  assume "ActivityAssignment_make_random_assignment s act g = Inr (x, g')"
  then obtain f g1 r g2 t where
    "random_choice (facilitators s) g = Inr (f, g1)"
    "random_choice (rooms s) g1 = Inr (r, g2)"
    "random_choice (times s) g2 = Inr (t, g')"
    "x = \<lparr>activity = act, facilitator = f, room = r, time = t\<rparr>"
    by (auto simp: ActivityAssignment_make_random_assignment_def split: sum.splits)
  then show ?thesis
    using random_choice_mem [of "facilitators s" g f g1]
      random_choice_mem [of "rooms s" g1 r g2] random_choice_mem [of "times s" g2 t g']
    by (simp add: fresh_gene_def)
qed

lemma random_randint_range:
  "random_randint a b g = Inr (c, g1) \<Longrightarrow> a \<le> c \<and> c \<le> b \<and> g1 = snd (rng_next g)"
proof -
  assume r: "random_randint a b g = Inr (c, g1)"
  then have ab: "a \<le> b" by (auto simp: random_randint_def split: if_splits)
  with r have c: "c = a + int (g 0 mod nat (b - a + 1))" and g1: "g1 = snd (rng_next g)"
    by (auto simp: random_randint_def rng_next_def)
  from ab have "g 0 mod nat (b - a + 1) < nat (b - a + 1)" by simp
  with ab have "int (g 0 mod nat (b - a + 1)) < b - a + 1" by linarith
  with c g1 show ?thesis by simp
qed

lemma cross_loop_other:
  "cross_loop s a b mr c i as d g = Inr (d', g') \<Longrightarrow> k \<notin> get_id ` set as \<Longrightarrow>
     map_of d' k = map_of d k"
proof (induction as arbitrary: d g i)
  case Nil
  then show ?case by simp
next
  case (Cons act as)
  from Cons.prems(1) obtain x g1 where
    rec: "cross_loop s a b mr c (Suc i) as (dict_set (get_id act) x d) g1 = Inr (d', g')"
    by (auto split: sum.splits)
  from Cons.prems(2) have "k \<notin> get_id ` set as" and "k \<noteq> get_id act" by auto
  with Cons.IH [OF rec] show ?case
    by (simp add: AList.update_conv')
qed

lemma cross_gene_trace:
  assumes "cross_gene s a b mr c i act g = Inr (x, g1)"
  shows "mutation_trace s mr (act # as) g =
           (fst (random_random g) < mr) # mutation_trace s mr as g1"
  using assms
  by (auto simp: cross_gene_def dict_get_def split: prod.splits if_splits sum.splits option.splits)

lemma cross_gene_cases:
  assumes "cross_gene s a b mr c i act g = Inr (x, g1)"
  shows "if fst (random_random g) < mr then fresh_gene s act x
         else if int i < c then map_of (genes a) (get_id act) = Some x
         else map_of (genes b) (get_id act) = Some x"
  using assms
  by (auto simp: cross_gene_def dict_get_def split: prod.splits if_splits sum.splits option.splits
      dest: make_random_fresh)

lemma cross_loop_gene:
  assumes "cross_loop s a b mr c i as d g = Inr (d', g')"
    and "j < length as"
    and "get_id (as ! j) \<notin> get_id ` set (drop (Suc j) as)"
  shows "\<exists>x. map_of d' (get_id (as ! j)) = Some x \<and>
           (if mutation_trace s mr as g ! j then fresh_gene s (as ! j) x
            else if int (i + j) < c then map_of (genes a) (get_id (as ! j)) = Some x
            else map_of (genes b) (get_id (as ! j)) = Some x)"
  using assms
proof (induction as arbitrary: d g i j)
  case Nil
  then show ?case by simp
next
  case (Cons act as)
  from Cons.prems(1) obtain x g1 where
    step: "cross_gene s a b mr c i act g = Inr (x, g1)" and
    rec: "cross_loop s a b mr c (Suc i) as (dict_set (get_id act) x d) g1 = Inr (d', g')"
    by (auto split: sum.splits)
  note tr = cross_gene_trace [OF step, of as] cross_gene_cases [OF step]
  show ?case
  proof (cases j)
    case 0
    with Cons.prems(3) have "get_id act \<notin> get_id ` set as" by simp
    from cross_loop_other [OF rec this] have "map_of d' (get_id act) = Some x"
      by (simp add: AList.update_conv')
    with 0 tr show ?thesis by (simp del: mutation_trace.simps)
  next
    case (Suc j')
    with Cons.prems have "j' < length as" and
      "get_id (as ! j') \<notin> get_id ` set (drop (Suc j') as)" by simp_all
    from Cons.IH [OF rec this] Suc tr(1) show ?thesis
      by (auto simp del: mutation_trace.simps split: if_splits)
  qed
qed

lemma cross_loop_trace_length:
  "cross_loop s a b mr c i as d g = Inr (d', g') \<Longrightarrow>
     length (mutation_trace s mr as g) = length as"
proof (induction as arbitrary: d g i)
  case Nil
  then show ?case by simp
next
  case (Cons act as)
  from Cons.prems(1) obtain x g1 where
    step: "cross_gene s a b mr c i act g = Inr (x, g1)" and
    rec: "cross_loop s a b mr c (Suc i) as (dict_set (get_id act) x d) g1 = Inr (d', g')"
    by (auto split: sum.splits)
  from Cons.IH [OF rec] cross_gene_trace [OF step, of as] show ?case
    by (simp del: mutation_trace.simps)
qed











lemma last_index_final:
  "as \<noteq> [] \<Longrightarrow> get_id (as ! (length as - 1)) \<notin> get_id ` set (drop (Suc (length as - 1)) as)"
  by simp

text \<open>
  C10. In a call of \<open>cross_schedules\<close> that returns, the crossover point is at most the
  last index, so the last index is never strictly before it. When no gene takes the
  mutation branch, the gene of the last activity is the gene parent B has under that
  key. When the crossover point drawn is 0, every gene that is not mutated (and is the
  final value of its key) is the gene parent B has under its key.
\<close>

theorem last_gene_from_parent_b:
  assumes ok: "cross_schedules s a b mr g = Inr (child, g')"
  shows "(\<exists>c. random_randint 0 (int (length (activities s)) - 1) g = Inr (c, snd (rng_next g)) \<and>
            \<not> int (length (activities s) - 1) < c) \<and>
         (True \<notin> set (mutation_trace s mr (activities s) (snd (rng_next g))) \<longrightarrow>
            map_of (genes child) (get_id (last (activities s))) \<noteq> None \<and>
            map_of (genes child) (get_id (last (activities s))) =
              map_of (genes b) (get_id (last (activities s)))) \<and>
         (random_randint 0 (int (length (activities s)) - 1) g = Inr (0, snd (rng_next g)) \<longrightarrow>
            (\<forall>j<length (activities s).
               get_id (activities s ! j) \<notin> get_id ` set (drop (Suc j) (activities s)) \<and>
               \<not> mutation_trace s mr (activities s) (snd (rng_next g)) ! j \<longrightarrow>
               map_of (genes child) (get_id (activities s ! j)) \<noteq> None \<and>
               map_of (genes child) (get_id (activities s ! j)) =
                 map_of (genes b) (get_id (activities s ! j))))"
proof -
  let ?as = "activities s"
  let ?g1 = "snd (rng_next g)"
  from cross_schedules_loop [OF ok] obtain c g1 where
    draw: "random_randint 0 (int (length ?as) - 1) g = Inr (c, g1)" and
    loop: "cross_loop s a b mr c 0 ?as [] g1 = Inr (genes child, g')"
    by blast
  from random_randint_range [OF draw] have range: "0 \<le> c" "c \<le> int (length ?as) - 1"
    and g1: "g1 = ?g1"
    by simp_all
  from range have nonempty: "?as \<noteq> []" by auto
  from range have notbelow: "\<not> int (length ?as - 1) < c" by linarith
  have len: "length (mutation_trace s mr ?as ?g1) = length ?as"
    using cross_loop_trace_length [OF loop] g1 by simp
  have gene: "\<exists>x. map_of (genes child) (get_id (?as ! j)) = Some x \<and>
      (if mutation_trace s mr ?as ?g1 ! j then fresh_gene s (?as ! j) x
       else if int j < c then map_of (genes a) (get_id (?as ! j)) = Some x
       else map_of (genes b) (get_id (?as ! j)) = Some x)"
    if "j < length ?as" and "get_id (?as ! j) \<notin> get_id ` set (drop (Suc j) ?as)" for j
    using cross_loop_gene [OF loop that] g1 by (auto split: if_splits)
  have part1: "map_of (genes child) (get_id (last ?as)) \<noteq> None \<and>
      map_of (genes child) (get_id (last ?as)) = map_of (genes b) (get_id (last ?as))"
    if nomut: "True \<notin> set (mutation_trace s mr ?as ?g1)"
  proof -
    let ?j = "length ?as - 1"
    from nonempty have j: "?j < length ?as" by simp
    from nonempty have l: "last ?as = ?as ! ?j" by (simp add: last_conv_nth)
    from j len have "mutation_trace s mr ?as ?g1 ! ?j \<in> set (mutation_trace s mr ?as ?g1)"
      by simp
    with nomut have "\<not> mutation_trace s mr ?as ?g1 ! ?j" by auto
    with gene [OF j last_index_final [OF nonempty]] notbelow l show ?thesis
      by auto
  qed
  have part2: "map_of (genes child) (get_id (?as ! j)) \<noteq> None \<and>
      map_of (genes child) (get_id (?as ! j)) = map_of (genes b) (get_id (?as ! j))"
    if "random_randint 0 (int (length ?as) - 1) g = Inr (0, ?g1)" and "j < length ?as"
      and "get_id (?as ! j) \<notin> get_id ` set (drop (Suc j) ?as)"
      and "\<not> mutation_trace s mr ?as ?g1 ! j" for j
  proof -
    from that(1) draw have "c = 0" by simp
    with gene [OF that(2,3)] that(4) show ?thesis by auto
  qed
  from draw g1 notbelow part1 part2 show ?thesis by blast
qed

lemma toy_cross_unmutated:
  "cross_schedules toy_schedule (toy_parent 0) (toy_parent 1) 0.5
       (rng_of [1, 2 ^ 52, 2 ^ 52 + 1]) =
     Inr (\<lparr>schedule = toy_schedule,
           genes = [(''SLA101A'', gene (sla 101 ''A'') 0), (''SLA101B'', gene (sla 101 ''B'') 1)]\<rparr>,
          rng_of [])"
  by (simp add: cross_schedules_def toy_schedule_def rand_eval get_id_eval
      toy_parent_def gene_def cross_gene_def dict_get_def)

lemma toy_trace_unmutated:
  "mutation_trace toy_schedule 0.5 (activities toy_schedule)
     (snd (rng_next (rng_of [1, 2 ^ 52, 2 ^ 52 + 1]))) = [False, False]"
  by (simp add: toy_schedule_def rand_eval)

lemma toy_cross_zero:
  "cross_schedules toy_schedule (toy_parent 0) (toy_parent 1) 0.5
       (rng_of [0, 2 ^ 52, 2 ^ 52 - 1, 0, 0, 0]) =
     Inr (\<lparr>schedule = toy_schedule,
           genes = [(''SLA101A'', gene (sla 101 ''A'') 1), (''SLA101B'', gene (sla 101 ''B'') 0)]\<rparr>,
          rng_of [])"
  by (simp add: cross_schedules_def toy_schedule_def rand_eval get_id_eval
      toy_parent_def gene_def cross_gene_def dict_get_def)

lemma toy_trace_zero:
  "mutation_trace toy_schedule 0.5 (activities toy_schedule)
     (snd (rng_next (rng_of [0, 2 ^ 52, 2 ^ 52 - 1, 0, 0, 0]))) = [False, True]"
  by (simp add: toy_schedule_def rand_eval)

lemma toy_draw_zero:
  "random_randint 0 (int (length (activities toy_schedule)) - 1)
     (rng_of [0, 2 ^ 52, 2 ^ 52 - 1, 0, 0, 0]) =
   Inr (0, snd (rng_next (rng_of [0, 2 ^ 52, 2 ^ 52 - 1, 0, 0, 0])))"
  by (simp add: toy_schedule_def rand_eval)

theorem last_gene_from_parent_b_witness:
  "(\<exists>child g'. cross_schedules toy_schedule (toy_parent 0) (toy_parent 1) 0.5
        (rng_of [1, 2 ^ 52, 2 ^ 52 + 1]) = Inr (child, g') \<and>
      True \<notin> set (mutation_trace toy_schedule 0.5 (activities toy_schedule)
        (snd (rng_next (rng_of [1, 2 ^ 52, 2 ^ 52 + 1])))) \<and>
      map_of (genes child) (get_id (last (activities toy_schedule))) =
        Some (gene (sla 101 ''B'') 1) \<and>
      map_of (genes child) (get_id (last (activities toy_schedule))) =
        map_of (genes (toy_parent 1)) (get_id (last (activities toy_schedule)))) \<and>
   (\<exists>child g'. cross_schedules toy_schedule (toy_parent 0) (toy_parent 1) 0.5
        (rng_of [0, 2 ^ 52, 2 ^ 52 - 1, 0, 0, 0]) = Inr (child, g') \<and>
      random_randint 0 (int (length (activities toy_schedule)) - 1)
        (rng_of [0, 2 ^ 52, 2 ^ 52 - 1, 0, 0, 0]) =
        Inr (0, snd (rng_next (rng_of [0, 2 ^ 52, 2 ^ 52 - 1, 0, 0, 0]))) \<and>
      \<not> mutation_trace toy_schedule 0.5 (activities toy_schedule)
        (snd (rng_next (rng_of [0, 2 ^ 52, 2 ^ 52 - 1, 0, 0, 0]))) ! 0 \<and>
      map_of (genes child) (get_id (activities toy_schedule ! 0)) =
        map_of (genes (toy_parent 1)) (get_id (activities toy_schedule ! 0)))"
proof -
  have nomut: "True \<notin> set (mutation_trace toy_schedule 0.5 (activities toy_schedule)
        (snd (rng_next (rng_of [1, 2 ^ 52, 2 ^ 52 + 1]))))"
    unfolding toy_trace_unmutated by simp
  have flag: "\<not> mutation_trace toy_schedule 0.5 (activities toy_schedule)
        (snd (rng_next (rng_of [0, 2 ^ 52, 2 ^ 52 - 1, 0, 0, 0]))) ! 0"
    unfolding toy_trace_zero by simp
  have final: "0 < length (activities toy_schedule)"
    "get_id (activities toy_schedule ! 0) \<notin>
       get_id ` set (drop (Suc 0) (activities toy_schedule))"
    by (simp_all add: toy_schedule_def get_id_eval)
  have b: "map_of (genes (toy_parent 1)) (get_id (last (activities toy_schedule))) =
      Some (gene (sla 101 ''B'') 1)"
    by (simp add: toy_parent_def toy_schedule_def get_id_eval)
  from last_gene_from_parent_b [OF toy_cross_unmutated] nomut b
  have first: "map_of (genes \<lparr>schedule = toy_schedule,
           genes = [(''SLA101A'', gene (sla 101 ''A'') 0), (''SLA101B'', gene (sla 101 ''B'') 1)]\<rparr>) (get_id (last (activities toy_schedule))) =
        Some (gene (sla 101 ''B'') 1)"
    by simp
  from last_gene_from_parent_b [OF toy_cross_zero] toy_draw_zero flag final
  have second: "map_of (genes \<lparr>schedule = toy_schedule,
           genes = [(''SLA101A'', gene (sla 101 ''A'') 1), (''SLA101B'', gene (sla 101 ''B'') 0)]\<rparr>) (get_id (activities toy_schedule ! 0)) =
        map_of (genes (toy_parent 1)) (get_id (activities toy_schedule ! 0))"
    by blast
  from toy_cross_unmutated nomut first b toy_cross_zero toy_draw_zero flag second
  show ?thesis by simp
qed

subsection \<open>Counters\<close>

lemma counter_incr_distinct:
  "distinct (map fst c) \<Longrightarrow> distinct (map fst (counter_incr k c))"
  by (simp add: counter_incr_def AList.distinct_update)

lemma counter_incr_lookup:
  "map_of (counter_incr k c) k' =
     (if k' = k then Some (Suc (case map_of c k of None \<Rightarrow> 0 | Some n \<Rightarrow> n)) else map_of c k')"
  by (simp add: counter_incr_def AList.update_conv' split: option.splits)

lemma fold_counter_distinct:
  "distinct (map fst c) \<Longrightarrow> distinct (map fst (fold counter_incr ks c))"
  by (induction ks arbitrary: c) (simp_all add: counter_incr_distinct)

lemma fold_counter_lookup:
  "map_of (fold counter_incr ks c) k =
     (if k \<in> set ks
      then Some (count_list ks k + (case map_of c k of None \<Rightarrow> 0 | Some n \<Rightarrow> n))
      else map_of c k)"
  by (induction ks arbitrary: c) (auto simp: counter_incr_lookup)

lemma fold_counter_set:
  "set (fold counter_incr ks []) = (\<lambda>k. (k, count_list ks k)) ` set ks"
proof -
  let ?c = "fold counter_incr ks []"
  have d: "distinct (map fst ?c)" by (simp add: fold_counter_distinct)
  have "(k, n) \<in> set ?c \<longleftrightarrow> k \<in> set ks \<and> n = count_list ks k" for k n
  proof -
    from d have "(k, n) \<in> set ?c \<longleftrightarrow> map_of ?c k = Some n" by simp
    then show ?thesis by (auto simp: fold_counter_lookup)
  qed
  then show ?thesis by auto
qed

lemma counter_sum:
  fixes h :: "'k \<Rightarrow> nat \<Rightarrow> real"
  shows "(\<Sum>p\<leftarrow>fold counter_incr ks []. h (fst p) (snd p)) =
     (\<Sum>k\<leftarrow>remdups ks. h k (count_list ks k))"
proof -
  let ?c = "fold counter_incr ks []"
  have "distinct (map fst ?c)" by (simp add: fold_counter_distinct)
  then have "distinct ?c" by (simp add: distinct_map)
  then have "(\<Sum>p\<leftarrow>?c. h (fst p) (snd p)) = (\<Sum>p\<in>set ?c. h (fst p) (snd p))"
    by (simp add: sum_list_distinct_conv_sum_set)
  also have "\<dots> = (\<Sum>p\<in>(\<lambda>k. (k, count_list ks k)) ` set ks. h (fst p) (snd p))"
    by (simp add: fold_counter_set)
  also have "\<dots> = (\<Sum>k\<in>set ks. h k (count_list ks k))"
    by (subst sum.reindex) (auto simp: inj_on_def)
  also have "\<dots> = (\<Sum>k\<leftarrow>remdups ks. h k (count_list ks k))"
    by (simp add: sum_list_distinct_conv_sum_set)
  finally show ?thesis .
qed

lemma bind_Inr: "bind m f = Inr y \<longleftrightarrow> (\<exists>x. m = Inr x \<and> f x = Inr y)"
  by (cases m) (simp_all add: bind_def)

lemma activity_step_counters:
  assumes "activity_step x st = Inr st'"
  shows "room_time_load st' = counter_incr (room x, time x) (room_time_load st)"
    and "facilitator_load st' = counter_incr (facilitator x) (facilitator_load st)"
    and "facilitator_time_load st' =
           counter_incr (facilitator x, time x) (facilitator_time_load st)"
  using assms by (auto simp: activity_step_def Let_def bind_Inr)

lemma activity_loop_counters:
  assumes "activity_loop xs st = Inr st'"
  shows "room_time_load st' =
           fold counter_incr (map (\<lambda>x. (room x, time x)) xs) (room_time_load st)"
    and "facilitator_load st' = fold counter_incr (map facilitator xs) (facilitator_load st)"
    and "facilitator_time_load st' =
           fold counter_incr (map (\<lambda>x. (facilitator x, time x)) xs) (facilitator_time_load st)"
  using assms
proof (induction xs arbitrary: st)
  case Nil
  {
    case 1 then show ?case by simp
  next
    case 2 then show ?case by simp
  next
    case 3 then show ?case by simp
  }
next
  case (Cons x xs)
  {
    case 1
    then obtain st1 where s: "activity_step x st = Inr st1" and r: "activity_loop xs st1 = Inr st'"
      by (auto simp: bind_Inr)
    from Cons.IH(1) [OF r] activity_step_counters(1) [OF s] show ?case by simp
  next
    case 2
    then obtain st1 where s: "activity_step x st = Inr st1" and r: "activity_loop xs st1 = Inr st'"
      by (auto simp: bind_Inr)
    from Cons.IH(2) [OF r] activity_step_counters(2) [OF s] show ?case by simp
  next
    case 3
    then obtain st1 where s: "activity_step x st = Inr st1" and r: "activity_loop xs st1 = Inr st'"
      by (auto simp: bind_Inr)
    from Cons.IH(3) [OF r] activity_step_counters(3) [OF s] show ?case by simp
  }
qed

lemma fold_room_time_step:
  "fold room_time_step ns f = f - (\<Sum>n\<leftarrow>ns. conflict_penalty n)"
  by (induction ns arbitrary: f) (simp_all add: room_time_step_def conflict_penalty_def)

lemma fold_facilitator_load_step:
  "fold facilitator_load_step fl f = f - (\<Sum>p\<leftarrow>fl. load_penalty (fst p) (snd p))"
  by (induction fl arbitrary: f)
     (auto simp: facilitator_load_step_def load_penalty_def split: prod.splits)

text \<open>What the two rules over the counters subtract, in terms of the genes.\<close>

lemma room_time_rule_counts:
  assumes "activity_loop (map snd (genes sa)) init_state = Inr st"
  shows "room_time_rule (room_time_load st) f =
           f - (\<Sum>k\<leftarrow>remdups (map (\<lambda>x. (room x, time x)) (map snd (genes sa))).
                  conflict_penalty
                    (count_list (map (\<lambda>x. (room x, time x)) (map snd (genes sa))) k))
         \<and> conflict_penalty 1 = 0 \<and> conflict_penalty 2 = 1 \<and> conflict_penalty 3 = 1.5
         \<and> (\<forall>k\<ge>2. conflict_penalty k = 0.5 * real k)"
proof -
  from activity_loop_counters(1) [OF assms]
  have "room_time_load st =
      fold counter_incr (map (\<lambda>x. (room x, time x)) (map snd (genes sa))) []"
    by (simp add: init_state_def)
  then have "room_time_rule (room_time_load st) f =
      f - (\<Sum>p\<leftarrow>fold counter_incr (map (\<lambda>x. (room x, time x)) (map snd (genes sa))) [].
             conflict_penalty (snd p))"
    by (simp only: room_time_rule_def fold_room_time_step map_map comp_def)
  then have "room_time_rule (room_time_load st) f =
      f - (\<Sum>k\<leftarrow>remdups (map (\<lambda>x. (room x, time x)) (map snd (genes sa))).
             conflict_penalty
               (count_list (map (\<lambda>x. (room x, time x)) (map snd (genes sa))) k))"
    by (simp only: counter_sum [where h = "\<lambda>k n. conflict_penalty n"])
  moreover have "conflict_penalty 1 = 0 \<and> conflict_penalty 2 = 1 \<and> conflict_penalty 3 = 1.5
      \<and> (\<forall>k\<ge>2. conflict_penalty k = 0.5 * real k)"
    by (simp add: conflict_penalty_def)
  ultimately show ?thesis by blast
qed

lemma facilitator_load_rule_counts:
  assumes "activity_loop (map snd (genes sa)) init_state = Inr st"
  shows "facilitator_load_rule (facilitator_load st) f =
           f - (\<Sum>fac\<leftarrow>remdups (map facilitator (map snd (genes sa))).
                  load_penalty fac (count_list (map facilitator (map snd (genes sa))) fac))
         \<and> (\<forall>fac. fac \<noteq> ''Tyler'' \<longrightarrow> load_penalty fac 1 = 0.4)
         \<and> (\<forall>fac. load_penalty fac 2 = 0.4 \<and> load_penalty fac 3 = 0 \<and> load_penalty fac 4 = 0)
         \<and> (\<forall>fac n. n > 4 \<longrightarrow> load_penalty fac n = 0.5)
         \<and> load_penalty ''Tyler'' 1 = 0 \<and> load_penalty ''Tyler'' 2 = 0.4"
proof -
  from activity_loop_counters(2) [OF assms]
  have "facilitator_load st = fold counter_incr (map facilitator (map snd (genes sa))) []"
    by (simp add: init_state_def)
  then have "facilitator_load_rule (facilitator_load st) f =
      f - (\<Sum>p\<leftarrow>fold counter_incr (map facilitator (map snd (genes sa))) [].
             load_penalty (fst p) (snd p))"
    by (simp only: facilitator_load_rule_def fold_facilitator_load_step)
  then have "facilitator_load_rule (facilitator_load st) f =
      f - (\<Sum>fac\<leftarrow>remdups (map facilitator (map snd (genes sa))).
             load_penalty fac (count_list (map facilitator (map snd (genes sa))) fac))"
    by (simp only: counter_sum [where h = load_penalty])
  moreover have "(\<forall>fac. fac \<noteq> ''Tyler'' \<longrightarrow> load_penalty fac 1 = 0.4)
      \<and> (\<forall>fac. load_penalty fac 2 = 0.4 \<and> load_penalty fac 3 = 0 \<and> load_penalty fac 4 = 0)
      \<and> (\<forall>fac n. n > 4 \<longrightarrow> load_penalty fac n = 0.5)
      \<and> load_penalty ''Tyler'' 1 = 0 \<and> load_penalty ''Tyler'' 2 = 0.4"
    by (simp add: load_penalty_def)
  ultimately show ?thesis by blast
qed

subsection \<open>Evaluation of the fitness of example candidates\<close>

lemmas fitness_eval =
  activity_step_def Let_def bind_def dict_get_def building_clusters_def counter_incr_def
  set_add_def capacity_fit_def capacity_rule_def preference_rule_def init_state_def
  sla_def gene_def slater_def mars_def

lemma timed_sum:
  "(\<Sum>k\<leftarrow>remdups (map (\<lambda>x. (room x, time x)) (map snd (genes (timed 0 0 0 1)))).
                  conflict_penalty
                    (count_list (map (\<lambda>x. (room x, time x)) (map snd (genes (timed 0 0 0 1)))) k)) = 1.5"
  by (simp add: timed_def gene_def slater_def conflict_penalty_def)

lemma staffed_sum:
  "(\<Sum>fac\<leftarrow>remdups (map facilitator (map snd (genes (staffed ''Tyler'' ''Ann'' ''Tyler'' ''Bob'')))).
                  load_penalty fac (count_list (map facilitator (map snd (genes (staffed ''Tyler'' ''Ann'' ''Tyler'' ''Bob'')))) fac)) = 1.2"
  by (simp add: staffed_def gene_def load_penalty_def)

lemma exempt_sum:
  "(\<Sum>fac\<leftarrow>remdups (map facilitator (map snd (genes (staffed ''Tyler'' ''Ann'' ''Ann'' ''Ann'')))).
                  load_penalty fac (count_list (map facilitator (map snd (genes (staffed ''Tyler'' ''Ann'' ''Ann'' ''Ann'')))) fac)) = 0"
  by (simp add: staffed_def gene_def load_penalty_def)

lemmas rule_eval = room_time_rule_def room_time_step_def
   facilitator_load_rule_def facilitator_load_step_def double_booking_rule_def double_booking_step_def
   travel_rule_def travel_step_def named_adjustments_def sla_inner_loop_def sla_pair_step_def section_gap_rule_def

lemma timed_fitness: "get_fitness (timed 0 0 0 1) = Inr 2.5"
  by (simp add: get_fitness_def timed_def fitness_eval rule_eval)

subsection \<open>Sampling without replacement\<close>








subsection \<open>The softmax\<close>










subsection \<open>The evolution loop\<close>

lemma choice_loop_numeral:
  "choice_loop (numeral n) remaining p g = choice_loop (Suc (pred_numeral n)) remaining p g"
  by (simp add: numeral_eq_Suc)

lemmas choice_eval = select_parents_def softmax_def bind_def choice_indices_def choice_def Let_def
  rand_eval remove_nth_def choice_loop_numeral







lemma timed_fitness_same: "get_fitness (timed 0 0 0 0) = Inr (- 0.5)"
  by (simp add: get_fitness_def timed_def fitness_eval rule_eval)


lemma choice_pair: "choice [a, b] 2 None (rng_of []) = Inr ([a, b], rng_of [])"
  by (simp add: choice_eval)





lemma timed_record: "\<lparr>schedule = sla_schedule, genes = genes (timed t1 t2 t3 t4)\<rparr> = timed t1 t2 t3 t4"
  by (simp add: timed_def)

lemma timed_schedule: "schedule (timed t1 t2 t3 t4) = sla_schedule"
  by (simp add: timed_def)








subsection \<open>What the fitness needs\<close>

lemma dict_get_Inr: "dict_get d k = Inr v \<longleftrightarrow> map_of d k = Some v"
  by (auto simp: dict_get_def split: option.splits)

lemma named_adjustments_keys:
  assumes "named_adjustments d f = Inr r"
  shows "{''SLA101A'', ''SLA101B'', ''SLA191A'', ''SLA191B''} \<subseteq> fst ` set d"
proof -
  from assms obtain a b c e where
    "map_of d ''SLA101A'' = Some a" "map_of d ''SLA101B'' = Some b"
    "map_of d ''SLA191A'' = Some c" "map_of d ''SLA191B'' = Some e"
    by (auto simp: named_adjustments_def bind_Inr dict_get_Inr Let_def)
  then show ?thesis
    by (auto dest!: map_of_SomeD intro: rev_image_eqI)
qed

lemma activity_step_mapped:
  "activity_step x st = Inr st' \<Longrightarrow>
     map_of building_clusters (building (room x)) \<noteq> None \<and>
     expected_enrollment (activity x) \<noteq> 0"
  by (auto simp: activity_step_def Let_def bind_Inr dict_get_Inr capacity_fit_def
      split: if_splits)

lemma activity_loop_mapped:
  "activity_loop xs st = Inr st' \<Longrightarrow>
     \<forall>x\<in>set xs. map_of building_clusters (building (room x)) \<noteq> None \<and>
       expected_enrollment (activity x) \<noteq> 0"
proof (induction xs arbitrary: st)
  case Nil
  then show ?case by simp
next
  case (Cons x xs)
  then obtain st1 where s: "activity_step x st = Inr st1" and r: "activity_loop xs st1 = Inr st'"
    by (auto simp: bind_Inr)
  from activity_step_mapped [OF s] Cons.IH [OF r] show ?case by simp
qed

lemma get_fitness_needs:
  assumes "get_fitness sa = Inr f"
  shows "{''SLA101A'', ''SLA101B'', ''SLA191A'', ''SLA191B''} \<subseteq> fst ` set (genes sa)"
    and "\<forall>x\<in>snd ` set (genes sa). map_of building_clusters (building (room x)) \<noteq> None"
proof -
  from assms obtain st r where
    l: "activity_loop (map snd (genes sa)) init_state = Inr st" and
    n: "named_adjustments (genes sa) r = Inr f"
    by (auto simp: get_fitness_def bind_Inr)
  from named_adjustments_keys [OF n]
  show "{''SLA101A'', ''SLA101B'', ''SLA191A'', ''SLA191B''} \<subseteq> fst ` set (genes sa)" .
  from activity_loop_mapped [OF l]
  show "\<forall>x\<in>snd ` set (genes sa). map_of building_clusters (building (room x)) \<noteq> None"
    by simp
qed

lemma not_Inr: "(\<forall>y. m \<noteq> Inr y) \<Longrightarrow> \<exists>e. m = Inl e"
  by (cases m) auto

subsection \<open>Generation 0\<close>

lemma initial_population_members:
  "initial_population n s py = Inr (pop, py') \<Longrightarrow>
     length pop = n \<and> (\<forall>sa\<in>set pop. fst ` set (genes sa) = get_id ` set (activities s))"
proof (induction n arbitrary: py pop)
  case 0
  then show ?case by simp
next
  case (Suc n)
  then obtain sa py1 sas where
    m: "ScheduleAssignment_make_random_assignment s py = Inr (sa, py1)" and
    r: "initial_population n s py1 = Inr (sas, py')" and pop: "pop = sa # sas"
    by (auto simp: bind_Inr)
  from make_random_genes [OF m] have "random_genes s (activities s) [] py = Inr (genes sa, py1)"
    by simp
  from random_genes_keys [OF this] Suc.IH [OF r] pop show ?case by simp
qed

lemma fitness_all_Inr:
  "fitness_all pop = Inr fs \<Longrightarrow> \<forall>sa\<in>set pop. \<exists>f. get_fitness sa = Inr f"
  by (induction pop arbitrary: fs) (auto simp: bind_Inr)

lemma startup_needs:
  assumes "startup n s py = Inr r" and "0 < n"
  shows "{''SLA101A'', ''SLA101B'', ''SLA191A'', ''SLA191B''} \<subseteq> get_id ` set (activities s)"
proof -
  from assms(1) obtain pop py1 fs where
    i: "initial_population n s py = Inr (pop, py1)" and f: "fitness_all pop = Inr fs"
    by (auto simp: startup_def bind_Inr)
  from initial_population_members [OF i] assms(2) obtain sa where
    sa: "sa \<in> set pop" and keys: "fst ` set (genes sa) = get_id ` set (activities s)"
    by (cases pop) auto
  from fitness_all_Inr [OF f] sa obtain x where "get_fitness sa = Inr x" by blast
  from get_fitness_needs(1) [OF this] keys show ?thesis by simp
qed

lemma run_startup_error:
  "startup n s py = Inl e \<Longrightarrow> run ops s n decay mr py np = Some (Inl e)"
  by (simp add: run_def)

lemma make_random_total:
  assumes "facilitators s \<noteq> []" and "rooms s \<noteq> []" and "times s \<noteq> []"
  shows "\<exists>x g'. ActivityAssignment_make_random_assignment s a g = Inr (x, g')"
  using assms
  by (simp add: ActivityAssignment_make_random_assignment_def random_choice_def rng_next_def)

lemma random_genes_total:
  assumes "facilitators s \<noteq> []" and "rooms s \<noteq> []" and "times s \<noteq> []"
  shows "\<exists>d' g'. random_genes s as d g = Inr (d', g')"
proof (induction as arbitrary: d g)
  case Nil
  then show ?case by simp
next
  case (Cons a as)
  from make_random_total [OF assms] obtain x g1 where
    "ActivityAssignment_make_random_assignment s a g = Inr (x, g1)" by blast
  with Cons.IH [of "dict_set (get_id a) x d" g1] show ?case by simp
qed

lemma initial_population_total:
  assumes "facilitators s \<noteq> []" and "rooms s \<noteq> []" and "times s \<noteq> []"
  shows "\<exists>pop py'. initial_population n s py = Inr (pop, py')"
proof (induction n arbitrary: py)
  case 0
  then show ?case by simp
next
  case (Suc n)
  from random_genes_total [OF assms] obtain d py1 where
    "random_genes s (activities s) [] py = Inr (d, py1)" by blast
  then have "ScheduleAssignment_make_random_assignment s py =
      Inr (\<lparr>schedule = s, genes = d\<rparr>, py1)"
    by (simp add: ScheduleAssignment_make_random_assignment_def)
  with Suc.IH [of py1] show ?case by (auto simp: bind_def)
qed

subsection \<open>Runs on example schedules\<close>

lemma toy_candidate:
  "ScheduleAssignment_make_random_assignment toy_schedule (rng_of []) = Inr (toy_parent 0, rng_of [])"
  by (simp add: ScheduleAssignment_make_random_assignment_def toy_schedule_def rand_eval
      get_id_eval gene_def toy_parent_def)

lemma toy_fitness: "get_fitness (toy_parent 0) = Inl (KeyError ''SLA191A'')"
  by (simp add: get_fitness_def toy_parent_def fitness_eval rule_eval)

lemma initial_population_numeral:
  "initial_population (numeral k) s py =
     bind (ScheduleAssignment_make_random_assignment s py) (\<lambda>(sa, py1).
     bind (initial_population (pred_numeral k) s py1) (\<lambda>(sas, py2). Inr (sa # sas, py2)))"
  by (simp add: numeral_eq_Suc)

lemma offspring_loop_numeral:
  "offspring_loop (numeral k) s parent_population mr py np =
     bind (choice parent_population 2 None np) (\<lambda>(ab, np1).
     bind (cross_schedules s (ab ! 0) (ab ! 1) mr py) (\<lambda>(child, py1).
     bind (offspring_loop (pred_numeral k) s parent_population mr py1 np1) (\<lambda>(rest, py2, np2).
       Inr (child # rest, py2, np2))))"
  by (simp add: numeral_eq_Suc)

lemma toy_population:
  "initial_population 10 toy_schedule (rng_of []) = Inr (replicate 10 (toy_parent 0), rng_of [])"
  by (simp add: initial_population_numeral toy_candidate bind_def replicate_numeral)

lemma toy_startup: "startup 10 toy_schedule (rng_of []) = Inl (KeyError ''SLA191A'')"
  by (simp add: startup_def toy_population toy_fitness bind_def replicate_numeral)

text \<open>The run on the toy schedule with a population of 10 and all draws zero raises
  \<open>KeyError\<close> for SLA191A: it reports no best schedule.\<close>

theorem toy_run_counterexample:
  "run exact_arith toy_schedule 10 (1 / 2) (1 / 10) (rng_of []) (rng_of []) = Some (Inl (KeyError ''SLA191A''))"
  by (simp add: run_def toy_startup)

lemma sla_candidate:
  "ScheduleAssignment_make_random_assignment sla_schedule (rng_of []) = Inr (timed 0 0 0 0, rng_of [])"
  by (simp add: ScheduleAssignment_make_random_assignment_def sla_schedule_def rand_eval
      get_id_eval gene_def timed_def)

lemma sla_population:
  "initial_population 10 sla_schedule (rng_of []) = Inr (replicate 10 (timed 0 0 0 0), rng_of [])"
  by (simp add: initial_population_numeral sla_candidate bind_def replicate_numeral)

lemma fitness_all_replicate:
  "get_fitness sa = Inr f \<Longrightarrow> fitness_all (replicate n sa) = Inr (replicate n f)"
  by (induction n) (simp_all add: bind_def)

lemma sla_startup:
  "startup 10 sla_schedule (rng_of []) =
     Inr (replicate 10 (timed 0 0 0 0), replicate 10 (- (1 / 2)), rng_of [])"
  using fitness_all_replicate [OF timed_fitness_same, of 10]
  by (simp add: startup_def sla_population bind_def)

lemma cross_mutating:
  "cross_schedules sla_schedule a b (1 / 10) (rng_of []) =
     Inr (\<lparr>schedule = schedule a, genes = genes (timed 0 0 0 0)\<rparr>, rng_of [])"
  by (simp add: cross_schedules_def cross_gene_def rand_eval
      sla_schedule_def get_id_eval timed_def gene_def)

lemma select_ten:
  "select_parents (replicate 10 (- (1 / 2))) (length (replicate 10 (timed 0 0 0 0))) 2 (rng_of []) =
     Inr ([0, 1], rng_of [])"
  by (simp add: choice_eval replicate_numeral upt_rec)

lemma offspring_replicate:
  "offspring_loop n sla_schedule [timed 0 0 0 0, timed 0 0 0 0] (1 / 10) (rng_of []) (rng_of []) =
     Inr (replicate n (timed 0 0 0 0), rng_of [], rng_of [])"
  by (induction n) (simp_all add: bind_def choice_pair cross_mutating timed_schedule timed_record)

lemma sla_first_generation:
  "get_next_generation sla_schedule (replicate 10 (timed 0 0 0 0)) (replicate 10 (- (1 / 2))) 2
      (1 / 10) (rng_of []) (rng_of []) =
     Inr (replicate 10 (timed 0 0 0 0), rng_of [], rng_of [])"
  unfolding get_next_generation_def select_ten
  by (simp add: bind_def offspring_replicate)

lemma sla_first_pass:
  "loop_body exact_arith sla_schedule 2 (1 / 2)
     \<lparr>generation = 0, population = replicate 10 (timed 0 0 0 0),
      population_fitness = replicate 10 (- (1 / 2)), mutation_rate = 1 / 10,
      py_random = rng_of [], np_random = rng_of []\<rparr> =
   Inr (Continue
     \<lparr>generation = 1, population = replicate 10 (timed 0 0 0 0),
      population_fitness = replicate 10 (- (1 / 2)), mutation_rate = 1 / 10,
      py_random = rng_of [], np_random = rng_of []\<rparr>)"
  using fitness_all_replicate [OF timed_fitness_same, of 10]
  by (simp add: loop_body_def sla_first_generation average_def decide_def bind_def)

text \<open>
  C8 (as the code has it). On a toy schedule with the two activities SLA101A and
  SLA101B, one facilitator, one room and the time slots 0 and 1, with a population of
  10, every run fails before the loop, whatever the draws: the 10 candidates of
  generation 0 are built and each covers both activities, but \<open>get_fitness\<close> raises on
  every one of them (it looks up SLA191A and SLA191B), so scoring generation 0 raises
  and no best schedule is reported.
\<close>

theorem toy_run_fails_in_evaluation:
  assumes ids: "map get_id (activities s) = [''SLA101A'', ''SLA101B'']"
    and fac: "length (facilitators s) = 1" and rms: "length (rooms s) = 1"
    and tms: "times s = [0, 1]"
  shows "\<exists>pop py1 e. initial_population 10 s py = Inr (pop, py1) \<and> length pop = 10 \<and>
           (\<forall>sa\<in>set pop. fst ` set (genes sa) = {''SLA101A'', ''SLA101B''} \<and>
              (\<exists>e'. get_fitness sa = Inl e')) \<and>
           startup 10 s py = Inl e \<and> run ops s 10 decay mr py np = Some (Inl e)"
proof -
  from fac rms tms have ne: "facilitators s \<noteq> []" "rooms s \<noteq> []" "times s \<noteq> []"
    by auto
  from initial_population_total [OF ne] obtain pop py1 where
    i: "initial_population 10 s py = Inr (pop, py1)" by blast
  from ids have "set (map get_id (activities s)) = set [''SLA101A'', ''SLA101B'']"
    by (rule arg_cong)
  then have keys: "get_id ` set (activities s) = {''SLA101A'', ''SLA101B''}"
    by simp
  note m = initial_population_members [OF i]
  have missing: "\<not> {''SLA101A'', ''SLA101B'', ''SLA191A'', ''SLA191B''} \<subseteq> {''SLA101A'', ''SLA101B''}"
    by simp
  have each: "fst ` set (genes sa) = {''SLA101A'', ''SLA101B''} \<and> (\<exists>e'. get_fitness sa = Inl e')"
    if "sa \<in> set pop" for sa
  proof -
    from m that keys have k: "fst ` set (genes sa) = {''SLA101A'', ''SLA101B''}" by simp
    have "\<forall>f. get_fitness sa \<noteq> Inr f"
    proof (intro allI notI)
      fix f assume "get_fitness sa = Inr f"
      from get_fitness_needs(1) [OF this] k missing show False by simp
    qed
    from not_Inr [OF this] k show ?thesis by simp
  qed
  have "\<forall>r. startup 10 s py \<noteq> Inr r"
  proof (intro allI notI)
    fix r assume "startup 10 s py = Inr r"
    from startup_needs [OF this] keys missing show False by simp
  qed
  from not_Inr [OF this] obtain e where e: "startup 10 s py = Inl e" by blast
  from run_startup_error [OF e] have r: "run ops s 10 decay mr py np = Some (Inl e)" .
  from m have len: "length pop = 10" by (rule conjunct1)
  from each have all: "\<forall>sa\<in>set pop. fst ` set (genes sa) = {''SLA101A'', ''SLA101B''} \<and>
      (\<exists>e'. get_fitness sa = Inl e')"
    by (rule ballI)
  from i len all e r show ?thesis
    by - (rule exI [where x = pop], rule exI [where x = py1], rule exI [where x = e],
        intro conjI; assumption)
qed

theorem toy_run_fails_in_evaluation_witness:
  "map get_id (activities toy_schedule) = [''SLA101A'', ''SLA101B''] \<and>
   length (facilitators toy_schedule) = 1 \<and> length (rooms toy_schedule) = 1 \<and>
   times toy_schedule = [0, 1] \<and>
   (\<exists>pop py1 e. initial_population 10 toy_schedule (rng_of []) = Inr (pop, py1) \<and>
      length pop = 10 \<and>
      (\<forall>sa\<in>set pop. fst ` set (genes sa) = {''SLA101A'', ''SLA101B''} \<and>
         (\<exists>e'. get_fitness sa = Inl e')) \<and>
      startup 10 toy_schedule (rng_of []) = Inl e \<and>
      run exact_arith toy_schedule 10 (1 / 2) (1 / 10) (rng_of []) (rng_of []) = Some (Inl e))"
proof -
  have h: "length (facilitators toy_schedule) = 1" "length (rooms toy_schedule) = 1"
    "times toy_schedule = [0, 1]"
    by (simp_all add: toy_schedule_def)
  note t = toy_run_fails_in_evaluation [OF toy_ids h, of "rng_of []" exact_arith "1 / 2" "1 / 10"
      "rng_of []"]
  from toy_ids h t show ?thesis
    by - (intro conjI; assumption)
qed

text \<open>
  C9 (as the code has it). Nothing is validated when the schedule is loaded. A schedule
  without one of the four named activities makes scoring generation 0 raise, for every
  non-empty population and all draws, so the run fails before the loop starts. A
  building outside the cluster mapping makes \<open>get_fitness\<close> raise only on a candidate
  that has a gene in such a room; a candidate that is scored has the four named keys
  and only rooms in mapped buildings.
\<close>

theorem configuration_errors_raise_in_fitness:
  "(\<not> {''SLA101A'', ''SLA101B'', ''SLA191A'', ''SLA191B''} \<subseteq> get_id ` set (activities s) \<and>
      0 < n \<longrightarrow>
      (\<exists>e. startup n s py = Inl e \<and> run ops s n decay mr py np = Some (Inl e)))
   \<and> ((\<exists>x\<in>snd ` set (genes sa). map_of building_clusters (building (room x)) = None) \<longrightarrow>
        (\<exists>e. get_fitness sa = Inl e))
   \<and> (get_fitness sa = Inr f \<longrightarrow>
        {''SLA101A'', ''SLA101B'', ''SLA191A'', ''SLA191B''} \<subseteq> fst ` set (genes sa) \<and>
        (\<forall>x\<in>snd ` set (genes sa). map_of building_clusters (building (room x)) \<noteq> None))"
proof (intro conjI impI)
  assume a: "\<not> {''SLA101A'', ''SLA101B'', ''SLA191A'', ''SLA191B''} \<subseteq> get_id ` set (activities s)
    \<and> 0 < n"
  have "\<forall>r. startup n s py \<noteq> Inr r"
  proof (intro allI notI)
    fix r assume "startup n s py = Inr r"
    from startup_needs [OF this] a show False by simp
  qed
  from not_Inr [OF this] obtain e where e: "startup n s py = Inl e" by blast
  from e run_startup_error [OF e]
  show "\<exists>e. startup n s py = Inl e \<and> run ops s n decay mr py np = Some (Inl e)"
    by - (rule exI [where x = e], rule conjI; assumption)
next
  assume a: "\<exists>x\<in>snd ` set (genes sa). map_of building_clusters (building (room x)) = None"
  have "\<forall>f. get_fitness sa \<noteq> Inr f"
  proof (intro allI notI)
    fix f assume "get_fitness sa = Inr f"
    from get_fitness_needs(2) [OF this] a show False by blast
  qed
  from not_Inr [OF this] show "\<exists>e. get_fitness sa = Inl e" .
next
  assume "get_fitness sa = Inr f"
  from get_fitness_needs [OF this]
  show "{''SLA101A'', ''SLA101B'', ''SLA191A'', ''SLA191B''} \<subseteq> fst ` set (genes sa)"
    and "\<forall>x\<in>snd ` set (genes sa). map_of building_clusters (building (room x)) \<noteq> None"
    by simp_all
qed

lemma mars_unmapped: "map_of building_clusters (building mars) = None"
  by (simp add: building_clusters_def mars_def)

theorem configuration_errors_raise_in_fitness_witness:
  "\<not> {''SLA101A'', ''SLA101B'', ''SLA191A'', ''SLA191B''} \<subseteq> get_id ` set (activities toy_schedule) \<and>
   (\<exists>e. startup 10 toy_schedule (rng_of []) = Inl e \<and>
      run exact_arith toy_schedule 10 (1 / 2) (1 / 10) (rng_of []) (rng_of []) = Some (Inl e)) \<and>
   (\<exists>e. get_fitness \<lparr>schedule = sla_schedule,
        genes = [(''SLA101A'', (gene (sla 101 ''A'') 0)\<lparr>room := mars\<rparr>)]\<rparr> = Inl e) \<and>
   get_fitness (timed 0 0 0 1) = Inr 2.5 \<and>
   {''SLA101A'', ''SLA101B'', ''SLA191A'', ''SLA191B''} \<subseteq> fst ` set (genes (timed 0 0 0 1))"
proof -
  from toy_ids have "set (map get_id (activities toy_schedule)) = set [''SLA101A'', ''SLA101B'']"
    by (rule arg_cong)
  then have "get_id ` set (activities toy_schedule) = {''SLA101A'', ''SLA101B''}"
    by simp
  then have miss: "\<not> {''SLA101A'', ''SLA101B'', ''SLA191A'', ''SLA191B''} \<subseteq>
      get_id ` set (activities toy_schedule)"
    by simp
  have pos: "0 < (10 :: nat)" by simp
  have un: "\<exists>x\<in>snd ` set (genes \<lparr>schedule = sla_schedule,
        genes = [(''SLA101A'', (gene (sla 101 ''A'') 0)\<lparr>room := mars\<rparr>)]\<rparr>).
      map_of building_clusters (building (room x)) = None"
    by (simp add: mars_unmapped)
  note t1 = configuration_errors_raise_in_fitness [where s = toy_schedule and n = 10
      and py = "rng_of []" and decay = "1 / 2" and mr = "1 / 10" and np = "rng_of []"
      and ops = exact_arith]
  note t2 = configuration_errors_raise_in_fitness [where sa = "\<lparr>schedule = sla_schedule,
        genes = [(''SLA101A'', (gene (sla 101 ''A'') 0)\<lparr>room := mars\<rparr>)]\<rparr>"]
  note t3 = configuration_errors_raise_in_fitness [where sa = "timed 0 0 0 1" and f = "2.5"]
  from miss pos have "\<not> {''SLA101A'', ''SLA101B'', ''SLA191A'', ''SLA191B''} \<subseteq>
      get_id ` set (activities toy_schedule) \<and> 0 < (10 :: nat)" by (rule conjI)
  with t1 [THEN conjunct1]
  have a: "\<exists>e. startup 10 toy_schedule (rng_of []) = Inl e \<and>
      run exact_arith toy_schedule 10 (1 / 2) (1 / 10) (rng_of []) (rng_of []) = Some (Inl e)"
    by (rule mp)
  from t2 [THEN conjunct2, THEN conjunct1] un
  have b: "\<exists>e. get_fitness \<lparr>schedule = sla_schedule,
        genes = [(''SLA101A'', (gene (sla 101 ''A'') 0)\<lparr>room := mars\<rparr>)]\<rparr> = Inl e"
    by (rule mp)
  from t3 [THEN conjunct2, THEN conjunct2] timed_fitness
  have "{''SLA101A'', ''SLA101B'', ''SLA191A'', ''SLA191B''} \<subseteq> fst ` set (genes (timed 0 0 0 1)) \<and>
      (\<forall>x\<in>snd ` set (genes (timed 0 0 0 1)).
         map_of building_clusters (building (room x)) \<noteq> None)"
    by (rule mp)
  then have c: "{''SLA101A'', ''SLA101B'', ''SLA191A'', ''SLA191B''} \<subseteq>
      fst ` set (genes (timed 0 0 0 1))"
    by (rule conjunct1)
  from miss a b timed_fitness c show ?thesis
    by - (intro conjI; assumption)
qed

text \<open>A schedule with a room in an unmapped building whose run is not stopped: with all
  draws zero generation 0 is built and scored, and the first pass of the loop derives
  and scores generation 1 and goes on.\<close>

theorem unmapped_building_counterexample:
  "mars \<in> set (rooms sla_schedule) \<and> map_of building_clusters (building mars) = None \<and>
   startup 10 sla_schedule (rng_of []) =
     Inr (replicate 10 (timed 0 0 0 0), replicate 10 (- (1 / 2)), rng_of []) \<and>
   loop_body exact_arith sla_schedule 2 (1 / 2)
     \<lparr>generation = 0, population = replicate 10 (timed 0 0 0 0),
      population_fitness = replicate 10 (- (1 / 2)), mutation_rate = 1 / 10,
      py_random = rng_of [], np_random = rng_of []\<rparr> =
   Inr (Continue
     \<lparr>generation = 1, population = replicate 10 (timed 0 0 0 0),
      population_fitness = replicate 10 (- (1 / 2)), mutation_rate = 1 / 10,
      py_random = rng_of [], np_random = rng_of []\<rparr>)"
  using mars_unmapped sla_startup sla_first_pass by (simp add: sla_schedule_def)

subsection \<open>The fitness as a sum of contributions\<close>

lemma fold_add:
  fixes step :: "'a \<Rightarrow> real \<Rightarrow> real"
  assumes "\<And>x f. step x f = f + step x 0"
  shows "fold step xs f = f + fold step xs 0"
proof (induction xs arbitrary: f)
  case Nil
  then show ?case by simp
next
  case (Cons x xs)
  have "fold step (x # xs) f = fold step xs (step x f)" by simp
  also have "\<dots> = step x f + fold step xs 0" by (rule Cons.IH)
  also have "\<dots> = f + (step x 0 + fold step xs 0)" using assms [of x f] by simp
  also have "step x 0 + fold step xs 0 = fold step xs (step x 0)" by (rule Cons.IH [symmetric])
  finally show ?case by simp
qed

lemma room_time_rule_add: "room_time_rule rtl f = f + room_time_rule rtl 0"
  by (simp add: room_time_rule_def fold_room_time_step)

lemma facilitator_load_rule_add: "facilitator_load_rule fl f = f + facilitator_load_rule fl 0"
  by (simp add: facilitator_load_rule_def fold_facilitator_load_step)

lemma double_booking_rule_add: "double_booking_rule ftl f = f + double_booking_rule ftl 0"
  unfolding double_booking_rule_def
  by (rule fold_add) (simp add: double_booking_step_def)

lemma travel_groups_add:
  "fold (travel_step ftbs fac t) groups f = f + fold (travel_step ftbs fac t) groups 0"
  by (rule fold_add) (simp add: travel_step_def Let_def)

lemma travel_rule_add: "travel_rule ftbs' f = f + travel_rule ftbs' 0"
  unfolding travel_rule_def
  by (rule fold_add) (auto split: prod.splits intro: travel_groups_add)

lemma section_gap_rule_add: "section_gap_rule gap f = f + section_gap_rule gap 0"
  by (simp add: section_gap_rule_def)

lemma sla_pair_step_add:
  "sla_pair_step a b f = bind (sla_pair_step a b 0) (\<lambda>r. Inr (f + r))"
  by (simp add: sla_pair_step_def bind_def Let_def split: sum.splits)

lemma bind_assoc: "bind (bind m f) g = bind m (\<lambda>x. bind (f x) g)"
  by (cases m) (simp_all add: bind_def)

lemma bind_Inr_left: "bind (Inr x) f = f x"
  by (simp add: bind_def)

lemma sla_inner_loop_add:
  "sla_inner_loop d x f = bind (sla_inner_loop d x 0) (\<lambda>r. Inr (f + r))"
proof -
  have two: "bind (sla_pair_step x a f) (sla_pair_step x b) =
      bind (bind (sla_pair_step x a 0) (sla_pair_step x b)) (\<lambda>r. Inr (f + r))" for a b
  proof (cases "sla_pair_step x a 0")
    case (Inl e)
    then show ?thesis by (simp add: sla_pair_step_add [of x a f] bind_def)
  next
    case (Inr r1)
    show ?thesis
    proof (cases "sla_pair_step x b 0")
      case (Inl e)
      with Inr show ?thesis
        by (simp add: sla_pair_step_add [of x a f] sla_pair_step_add [of x b "f + r1"]
            sla_pair_step_add [of x b r1] bind_def)
    next
      case r2: (Inr r2)
      with Inr show ?thesis
        by (simp add: sla_pair_step_add [of x a f] sla_pair_step_add [of x b "f + r1"]
            sla_pair_step_add [of x b r1] bind_def)
    qed
  qed
  show ?thesis
    unfolding sla_inner_loop_def
    by (cases "dict_get d ''SLA191A''"; cases "dict_get d ''SLA191B''")
       (simp_all add: bind_Inr_left two, simp_all add: bind_def)
qed


lemma sla_double_loop_add:
  "bind (sla_inner_loop d x f) (sla_inner_loop d y) =
     bind (bind (sla_inner_loop d x 0) (sla_inner_loop d y)) (\<lambda>r. Inr (f + r))"
proof (cases "sla_inner_loop d x 0")
  case (Inl e)
  then show ?thesis by (simp add: sla_inner_loop_add [of d x f] bind_def)
next
  case (Inr r1)
  then show ?thesis
    by (cases "sla_inner_loop d y 0")
       (simp_all add: sla_inner_loop_add [of d x f] sla_inner_loop_add [of d y "f + r1"]
          sla_inner_loop_add [of d y r1] bind_def)
qed

lemma named_adjustments_add:
  "named_adjustments d f = bind (named_adjustments d 0) (\<lambda>r. Inr (f + r))"
proof -
  have tail: "bind (sla_inner_loop d x (section_gap_rule g2 (section_gap_rule g1 f)))
        (sla_inner_loop d y) =
      bind (bind (sla_inner_loop d x (section_gap_rule g2 (section_gap_rule g1 0)))
        (sla_inner_loop d y)) (\<lambda>r. Inr (f + r))" for x y g1 g2
  proof -
    let ?c = "section_gap_rule g2 (section_gap_rule g1 0)"
    have c: "section_gap_rule g2 (section_gap_rule g1 f) = f + ?c"
      using section_gap_rule_add [of g2 "section_gap_rule g1 f"]
        section_gap_rule_add [of g1 f] section_gap_rule_add [of g2 "section_gap_rule g1 0"]
      by simp
    let ?B0 = "bind (sla_inner_loop d x 0) (sla_inner_loop d y)"
    have 1: "bind (sla_inner_loop d x (f + ?c)) (sla_inner_loop d y) =
        bind ?B0 (\<lambda>r. Inr (f + ?c + r))"
      by (rule sla_double_loop_add)
    have 2: "bind (sla_inner_loop d x ?c) (sla_inner_loop d y) = bind ?B0 (\<lambda>r. Inr (?c + r))"
      by (rule sla_double_loop_add)
    show ?thesis
      unfolding c 1 2 by (cases ?B0) (simp_all add: bind_def)
  qed
  show ?thesis
    unfolding named_adjustments_def Let_def
    by (cases "dict_get d ''SLA101A''"; cases "dict_get d ''SLA101B''";
        cases "dict_get d ''SLA191A''"; cases "dict_get d ''SLA191B''")
       (simp_all add: bind_Inr_left tail, simp_all add: bind_def)
qed

lemma named_adjustments_shift:
  "named_adjustments d (f + c) = Inr score \<longleftrightarrow>
     (\<exists>rest. named_adjustments d f = Inr rest \<and> score = rest + c)"
  by (cases "named_adjustments d 0")
     (auto simp: named_adjustments_add [of d "f + c"] named_adjustments_add [of d f] bind_def)

lemma later_rules_shift:
  "named_adjustments d (travel_rule t (double_booking_rule b (g + c))) = Inr score \<longleftrightarrow>
     (\<exists>rest. named_adjustments d (travel_rule t (double_booking_rule b g)) = Inr rest \<and>
        score = rest + c)"
proof -
  have "travel_rule t (double_booking_rule b (g + c)) =
      travel_rule t (double_booking_rule b g) + c"
    using travel_rule_add [of t "double_booking_rule b (g + c)"]
      travel_rule_add [of t "double_booking_rule b g"]
      double_booking_rule_add [of b "g + c"] double_booking_rule_add [of b g]
    by simp
  then show ?thesis by (simp only: named_adjustments_shift)
qed

lemma get_fitness_Inr:
  "get_fitness sa = Inr score \<longleftrightarrow>
     (\<exists>st. activity_loop (map snd (genes sa)) init_state = Inr st \<and>
        named_adjustments (genes sa)
          (travel_rule (facilitator_time_building_schedule st)
            (double_booking_rule (facilitator_time_load st)
              (facilitator_load_rule (facilitator_load st)
                (room_time_rule (room_time_load st) (fitness st))))) = Inr score)"
  by (simp add: get_fitness_def bind_Inr)

lemma activity_step_fitness:
  assumes "activity_step x st = Inr st'"
  shows "fitness st' =
           fitness st + capacity_three_branch (capacity_ratio x) 0 + preference_rule x 0"
proof -
  from assms obtain f where
    cap: "capacity_fit x (fitness st) = Inr f" and st': "fitness st' = preference_rule x f"
    by (auto simp: activity_step_def Let_def bind_Inr)
  from cap have "f = capacity_three_branch (capacity_ratio x) (fitness st)"
    by (auto simp: capacity_fit_def capacity_rule_def capacity_three_branch_def
        capacity_ratio_def split: if_splits)
  with st' show ?thesis
    by (simp add: capacity_three_branch_def preference_rule_def)
qed

lemma activity_loop_fitness:
  "activity_loop xs st = Inr st' \<Longrightarrow>
     fitness st' =
       fitness st + (\<Sum>x\<leftarrow>xs. capacity_three_branch (capacity_ratio x) 0 + preference_rule x 0)"
proof (induction xs arbitrary: st)
  case Nil
  then show ?case by simp
next
  case (Cons x xs)
  then obtain st1 where s: "activity_step x st = Inr st1" and r: "activity_loop xs st1 = Inr st'"
    by (auto simp: bind_Inr)
  from Cons.IH [OF r] activity_step_fitness [OF s] show ?case by simp
qed


text \<open>
  C2. The fitness that \<open>get_fitness\<close> returns is the sum of the contributions of its
  rules, and the contribution of the capacity rule is, gene by gene, what the rule with
  three branches gives for the capacity ratio of the gene: -0.5 below 1, -0.2 above 3
  and +0.3 otherwise, so +0.3 at the ratios 1 and 3 and never -0.4. Each pass of the
  loop over the genes adds that and the preference term to the fitness, and the capacity
  rule of the source is the rule with three branches for every ratio.
\<close>

theorem capacity_rule_dead_branch:
  "(get_fitness sa = Inr score \<longrightarrow>
      (\<exists>st named.
         activity_loop (map snd (genes sa)) init_state = Inr st \<and>
         named_adjustments (genes sa) 0 = Inr named \<and>
         score =
           (\<Sum>x\<leftarrow>map snd (genes sa). capacity_three_branch (capacity_ratio x) 0) +
           (\<Sum>x\<leftarrow>map snd (genes sa). preference_rule x 0) +
           room_time_rule (room_time_load st) 0 +
           facilitator_load_rule (facilitator_load st) 0 +
           double_booking_rule (facilitator_time_load st) 0 +
           travel_rule (facilitator_time_building_schedule st) 0 + named))
   \<and> (activity_step x st0 = Inr st1 \<longrightarrow>
        fitness st1 =
          fitness st0 + capacity_three_branch (capacity_ratio x) 0 + preference_rule x 0)
   \<and> capacity_three_branch ratio 0 =
        (if ratio < 1 then - 0.5 else if ratio > 3 then - 0.2 else 0.3)
   \<and> capacity_three_branch ratio 0 \<noteq> - 0.4
   \<and> capacity_three_branch 1 0 = 0.3 \<and> capacity_three_branch 3 0 = 0.3
   \<and> capacity_fit x f =
        (if expected_enrollment (activity x) = 0 then Inl ZeroDivisionError
         else Inr (capacity_three_branch (capacity_ratio x) f))
   \<and> capacity_rule ratio f = capacity_three_branch ratio f
   \<and> capacity_rule ratio f \<noteq> f - 0.4"
proof (intro conjI impI)
  assume "get_fitness sa = Inr score"
  then obtain st where
    l: "activity_loop (map snd (genes sa)) init_state = Inr st" and
    n: "named_adjustments (genes sa)
          (travel_rule (facilitator_time_building_schedule st)
            (double_booking_rule (facilitator_time_load st)
              (facilitator_load_rule (facilitator_load st)
                (room_time_rule (room_time_load st) (fitness st))))) = Inr score"
    by (auto simp: get_fitness_Inr)
  let ?X = "travel_rule (facilitator_time_building_schedule st)
            (double_booking_rule (facilitator_time_load st)
              (facilitator_load_rule (facilitator_load st)
                (room_time_rule (room_time_load st) (fitness st))))"
  from n obtain named where
    n0: "named_adjustments (genes sa) 0 = Inr named" and sc: "score = ?X + named"
    by (cases "named_adjustments (genes sa) 0")
       (auto simp: named_adjustments_add [of "genes sa" ?X] bind_def)
  have X: "?X = fitness st + room_time_rule (room_time_load st) 0 +
      facilitator_load_rule (facilitator_load st) 0 +
      double_booking_rule (facilitator_time_load st) 0 +
      travel_rule (facilitator_time_building_schedule st) 0"
    using travel_rule_add [of "facilitator_time_building_schedule st"
        "double_booking_rule (facilitator_time_load st)
              (facilitator_load_rule (facilitator_load st)
                (room_time_rule (room_time_load st) (fitness st)))"]
      double_booking_rule_add [of "facilitator_time_load st"
        "facilitator_load_rule (facilitator_load st)
                (room_time_rule (room_time_load st) (fitness st))"]
      facilitator_load_rule_add [of "facilitator_load st"
        "room_time_rule (room_time_load st) (fitness st)"]
      room_time_rule_add [of "room_time_load st" "fitness st"]
    by simp
  have F: "fitness st =
      (\<Sum>x\<leftarrow>map snd (genes sa). capacity_three_branch (capacity_ratio x) 0) +
      (\<Sum>x\<leftarrow>map snd (genes sa). preference_rule x 0)"
    using activity_loop_fitness [OF l] by (simp add: init_state_def sum_list_addf comp_def)
  from l n0 sc X F
  show "\<exists>st named.
         activity_loop (map snd (genes sa)) init_state = Inr st \<and>
         named_adjustments (genes sa) 0 = Inr named \<and>
         score =
           (\<Sum>x\<leftarrow>map snd (genes sa). capacity_three_branch (capacity_ratio x) 0) +
           (\<Sum>x\<leftarrow>map snd (genes sa). preference_rule x 0) +
           room_time_rule (room_time_load st) 0 +
           facilitator_load_rule (facilitator_load st) 0 +
           double_booking_rule (facilitator_time_load st) 0 +
           travel_rule (facilitator_time_building_schedule st) 0 + named"
    by (intro exI [where x = st] exI [where x = named]) simp
next
  assume "activity_step x st0 = Inr st1"
  then show "fitness st1 =
      fitness st0 + capacity_three_branch (capacity_ratio x) 0 + preference_rule x 0"
    by (rule activity_step_fitness)
qed (simp_all add: capacity_three_branch_def capacity_fit_def capacity_rule_def
    capacity_ratio_def)

text \<open>
  C4. The fitness that \<open>get_fitness\<close> returns is what the rules after the room and time
  rule make of the fitness of the loop over the genes, less the sum, over the pairs of a
  room and a time that occur in the candidate, of \<open>0.5 * k\<close> where \<open>k\<close> is the number of
  genes with that pair, when \<open>k\<close> is at least 2, and of nothing when \<open>k\<close> is 1: three
  genes in one room at one time cost 1.5.
\<close>

theorem room_time_conflicts:
  assumes "get_fitness sa = Inr score"
  shows "(\<exists>st rest.
            activity_loop (map snd (genes sa)) init_state = Inr st \<and>
            named_adjustments (genes sa)
              (travel_rule (facilitator_time_building_schedule st)
                (double_booking_rule (facilitator_time_load st)
                  (facilitator_load_rule (facilitator_load st) (fitness st)))) = Inr rest \<and>
            score =
              rest -
              (\<Sum>k\<leftarrow>remdups (map (\<lambda>x. (room x, time x)) (map snd (genes sa))).
                 conflict_penalty
                   (count_list (map (\<lambda>x. (room x, time x)) (map snd (genes sa))) k)))
         \<and> conflict_penalty 1 = 0 \<and> conflict_penalty 2 = 1 \<and> conflict_penalty 3 = 1.5
         \<and> (\<forall>k\<ge>2. conflict_penalty k = 0.5 * real k)"
proof -
  let ?c = "\<Sum>k\<leftarrow>remdups (map (\<lambda>x. (room x, time x)) (map snd (genes sa))).
      conflict_penalty (count_list (map (\<lambda>x. (room x, time x)) (map snd (genes sa))) k)"
  from assms obtain st where
    l: "activity_loop (map snd (genes sa)) init_state = Inr st" and
    n: "named_adjustments (genes sa)
          (travel_rule (facilitator_time_building_schedule st)
            (double_booking_rule (facilitator_time_load st)
              (facilitator_load_rule (facilitator_load st)
                (room_time_rule (room_time_load st) (fitness st))))) = Inr score"
    by (auto simp: get_fitness_Inr)
  note r = room_time_rule_counts [OF l, THEN conjunct1, of "fitness st"]
  have "facilitator_load_rule (facilitator_load st)
      (room_time_rule (room_time_load st) (fitness st)) =
      facilitator_load_rule (facilitator_load st) (fitness st) + (- ?c)"
    unfolding r
    using facilitator_load_rule_add [of "facilitator_load st" "fitness st - ?c"]
      facilitator_load_rule_add [of "facilitator_load st" "fitness st"]
    by simp
  with n have "named_adjustments (genes sa)
          (travel_rule (facilitator_time_building_schedule st)
            (double_booking_rule (facilitator_time_load st)
              (facilitator_load_rule (facilitator_load st) (fitness st) + (- ?c)))) = Inr score"
    by simp
  then obtain rest where
    "named_adjustments (genes sa)
       (travel_rule (facilitator_time_building_schedule st)
         (double_booking_rule (facilitator_time_load st)
           (facilitator_load_rule (facilitator_load st) (fitness st)))) = Inr rest"
    and "score = rest + (- ?c)"
    unfolding later_rules_shift by blast
  with l have "\<exists>st rest.
            activity_loop (map snd (genes sa)) init_state = Inr st \<and>
            named_adjustments (genes sa)
              (travel_rule (facilitator_time_building_schedule st)
                (double_booking_rule (facilitator_time_load st)
                  (facilitator_load_rule (facilitator_load st) (fitness st)))) = Inr rest \<and>
            score = rest - ?c"
    by (intro exI [where x = st] exI [where x = rest]) simp
  moreover have "conflict_penalty 1 = 0 \<and> conflict_penalty 2 = 1 \<and> conflict_penalty 3 = 1.5
      \<and> (\<forall>k\<ge>2. conflict_penalty k = 0.5 * real k)"
    by (simp add: conflict_penalty_def)
  ultimately show ?thesis by (rule conjI)
qed

text \<open>
  C5. The fitness that \<open>get_fitness\<close> returns is what the rules after the load rule make
  of the fitness that the room and time rule hands on, less the sum, over the
  facilitators that occur in the candidate, of the penalty of their number of
  activities: 0.4 for one or two activities, 0.5 for more than four, nothing for three
  or four; the facilitator named Tyler pays nothing for one activity and 0.4 for two.
\<close>

theorem facilitator_loads:
  assumes "get_fitness sa = Inr score"
  shows "(\<exists>st rest.
            activity_loop (map snd (genes sa)) init_state = Inr st \<and>
            named_adjustments (genes sa)
              (travel_rule (facilitator_time_building_schedule st)
                (double_booking_rule (facilitator_time_load st)
                  (room_time_rule (room_time_load st) (fitness st)))) = Inr rest \<and>
            score =
              rest -
              (\<Sum>fac\<leftarrow>remdups (map facilitator (map snd (genes sa))).
                 load_penalty fac (count_list (map facilitator (map snd (genes sa))) fac)))
         \<and> (\<forall>fac. fac \<noteq> ''Tyler'' \<longrightarrow> load_penalty fac 1 = 0.4)
         \<and> (\<forall>fac. load_penalty fac 2 = 0.4 \<and> load_penalty fac 3 = 0 \<and> load_penalty fac 4 = 0)
         \<and> (\<forall>fac n. n > 4 \<longrightarrow> load_penalty fac n = 0.5)
         \<and> load_penalty ''Tyler'' 1 = 0 \<and> load_penalty ''Tyler'' 2 = 0.4"
proof -
  let ?c = "\<Sum>fac\<leftarrow>remdups (map facilitator (map snd (genes sa))).
      load_penalty fac (count_list (map facilitator (map snd (genes sa))) fac)"
  from assms obtain st where
    l: "activity_loop (map snd (genes sa)) init_state = Inr st" and
    n: "named_adjustments (genes sa)
          (travel_rule (facilitator_time_building_schedule st)
            (double_booking_rule (facilitator_time_load st)
              (facilitator_load_rule (facilitator_load st)
                (room_time_rule (room_time_load st) (fitness st))))) = Inr score"
    by (auto simp: get_fitness_Inr)
  note r = facilitator_load_rule_counts [OF l, THEN conjunct1,
      of "room_time_rule (room_time_load st) (fitness st)"]
  from n have "named_adjustments (genes sa)
          (travel_rule (facilitator_time_building_schedule st)
            (double_booking_rule (facilitator_time_load st)
              (room_time_rule (room_time_load st) (fitness st) + (- ?c)))) = Inr score"
    unfolding r by simp
  then obtain rest where
    "named_adjustments (genes sa)
       (travel_rule (facilitator_time_building_schedule st)
         (double_booking_rule (facilitator_time_load st)
           (room_time_rule (room_time_load st) (fitness st)))) = Inr rest"
    and "score = rest + (- ?c)"
    unfolding later_rules_shift by blast
  with l have "\<exists>st rest.
            activity_loop (map snd (genes sa)) init_state = Inr st \<and>
            named_adjustments (genes sa)
              (travel_rule (facilitator_time_building_schedule st)
                (double_booking_rule (facilitator_time_load st)
                  (room_time_rule (room_time_load st) (fitness st)))) = Inr rest \<and>
            score = rest - ?c"
    by (intro exI [where x = st] exI [where x = rest]) simp
  moreover have "(\<forall>fac. fac \<noteq> ''Tyler'' \<longrightarrow> load_penalty fac 1 = 0.4)
      \<and> (\<forall>fac. load_penalty fac 2 = 0.4 \<and> load_penalty fac 3 = 0 \<and> load_penalty fac 4 = 0)
      \<and> (\<forall>fac n. n > 4 \<longrightarrow> load_penalty fac n = 0.5)
      \<and> load_penalty ''Tyler'' 1 = 0 \<and> load_penalty ''Tyler'' 2 = 0.4"
    by (simp add: load_penalty_def)
  ultimately show ?thesis by (rule conjI)
qed


lemma staffed_fitness: "get_fitness (staffed ''Tyler'' ''Ann'' ''Tyler'' ''Bob'') = Inr 3.2"
  by (simp add: get_fitness_def staffed_def fitness_eval rule_eval)

lemma exempt_fitness: "get_fitness (staffed ''Tyler'' ''Ann'' ''Ann'' ''Ann'') = Inr 5.6"
  by (simp add: get_fitness_def staffed_def fitness_eval rule_eval)

lemma big_room_step:
  "\<exists>st1. activity_step
       ((gene (sla 101 ''A'') 0)\<lparr>room := \<lparr>building = ''Roman'', number = 1, capacity = 200\<rparr>\<rparr>)
       init_state = Inr st1"
  by (simp add: fitness_eval)

lemma big_room_terms:
  "capacity_three_branch (capacity_ratio
       ((gene (sla 101 ''A'') 0)\<lparr>room := \<lparr>building = ''Roman'', number = 1, capacity = 200\<rparr>\<rparr>)) 0
     = - 0.2 \<and>
   preference_rule
       ((gene (sla 101 ''A'') 0)\<lparr>room := \<lparr>building = ''Roman'', number = 1, capacity = 200\<rparr>\<rparr>) 0
     = 0.5 \<and> fitness init_state = 0"
  by (simp add: capacity_three_branch_def capacity_ratio_def preference_rule_def gene_def sla_def
      init_state_def)


theorem capacity_rule_dead_branch_witness:
  "get_fitness (timed 0 0 0 1) = Inr 2.5 \<and>
   (\<exists>st named.
      activity_loop (map snd (genes (timed 0 0 0 1))) init_state = Inr st \<and>
      named_adjustments (genes (timed 0 0 0 1)) 0 = Inr named \<and>
      2.5 =
        (\<Sum>x\<leftarrow>map snd (genes (timed 0 0 0 1)). capacity_three_branch (capacity_ratio x) 0) +
        (\<Sum>x\<leftarrow>map snd (genes (timed 0 0 0 1)). preference_rule x 0) +
        room_time_rule (room_time_load st) 0 +
        facilitator_load_rule (facilitator_load st) 0 +
        double_booking_rule (facilitator_time_load st) 0 +
        travel_rule (facilitator_time_building_schedule st) 0 + named) \<and>
   (\<exists>st1.
      activity_step
        ((gene (sla 101 ''A'') 0)\<lparr>room := \<lparr>building = ''Roman'', number = 1, capacity = 200\<rparr>\<rparr>)
        init_state = Inr st1 \<and>
      fitness st1 = 0.3)"
proof -
  let ?x = "(gene (sla 101 ''A'') 0)\<lparr>room := \<lparr>building = ''Roman'', number = 1, capacity = 200\<rparr>\<rparr>"
  note t = capacity_rule_dead_branch [of "timed 0 0 0 1" "2.5" ?x init_state]
  from big_room_step obtain st1 where s: "activity_step ?x init_state = Inr st1" ..
  from t [of st1, THEN conjunct2, THEN conjunct1, THEN mp, OF s] big_room_terms
  have "fitness st1 = 0.3" by simp
  with s have b: "\<exists>st1. activity_step ?x init_state = Inr st1 \<and> fitness st1 = 0.3"
    by (intro exI [where x = st1] conjI)
  from t [of st1, THEN conjunct1, THEN mp, OF timed_fitness] timed_fitness b
  show ?thesis by (intro conjI)
qed

theorem room_time_conflicts_witness:
  "get_fitness (timed 0 0 0 1) = Inr 2.5 \<and>
   (\<exists>st rest.
      activity_loop (map snd (genes (timed 0 0 0 1))) init_state = Inr st \<and>
      named_adjustments (genes (timed 0 0 0 1))
        (travel_rule (facilitator_time_building_schedule st)
          (double_booking_rule (facilitator_time_load st)
            (facilitator_load_rule (facilitator_load st) (fitness st)))) = Inr rest \<and>
      2.5 = rest - 1.5)"
  using room_time_conflicts [OF timed_fitness, THEN conjunct1] timed_fitness
  unfolding timed_sum by (rule conjI [rotated])

theorem facilitator_loads_witness:
  "get_fitness (staffed ''Tyler'' ''Ann'' ''Tyler'' ''Bob'') = Inr 3.2 \<and>
   (\<exists>st rest.
      activity_loop (map snd (genes (staffed ''Tyler'' ''Ann'' ''Tyler'' ''Bob''))) init_state
        = Inr st \<and>
      named_adjustments (genes (staffed ''Tyler'' ''Ann'' ''Tyler'' ''Bob''))
        (travel_rule (facilitator_time_building_schedule st)
          (double_booking_rule (facilitator_time_load st)
            (room_time_rule (room_time_load st) (fitness st)))) = Inr rest \<and>
      3.2 = rest - 1.2) \<and>
   get_fitness (staffed ''Tyler'' ''Ann'' ''Ann'' ''Ann'') = Inr 5.6 \<and>
   (\<exists>st rest.
      activity_loop (map snd (genes (staffed ''Tyler'' ''Ann'' ''Ann'' ''Ann''))) init_state
        = Inr st \<and>
      named_adjustments (genes (staffed ''Tyler'' ''Ann'' ''Ann'' ''Ann''))
        (travel_rule (facilitator_time_building_schedule st)
          (double_booking_rule (facilitator_time_load st)
            (room_time_rule (room_time_load st) (fitness st)))) = Inr rest \<and>
      5.6 = rest - 0)"
  using facilitator_loads [OF staffed_fitness, THEN conjunct1]
    facilitator_loads [OF exempt_fitness, THEN conjunct1] staffed_fitness exempt_fitness
  unfolding staffed_sum exempt_sum by (intro conjI)

end
